theory Spec2Isabelle
  imports Main "HOL-Library.Sublist"
begin

section \<open>The world outside the program\<close>

text \<open>
  The backend (\<^verbatim>\<open>src/backend/app.py\<close>) drives external tools through
  \<^verbatim>\<open>subprocess.run\<close> and keeps its scratch files on disk.  The file system is
  modelled concretely, as an association list from path strings to nodes in which the
  first entry for a path is the current one.  The behaviour of the external tools is a
  parameter: a tool sees the command line, the working directory, the timeout, the file
  system and a private state \<open>'x\<close>, and answers with an outcome, a new file system and
  a new private state.
\<close>

type_synonym path = string

datatype node = Dir | File string

type_synonym filesys = "(path \<times> node) list"

text \<open>
  What one \<^verbatim>\<open>subprocess.run(cmd, capture_output=True, text=True, timeout=t)\<close>
  can do: return a completed process (return code, standard output, standard error),
  raise \<^verbatim>\<open>subprocess.TimeoutExpired\<close>, or raise another exception (the executable
  is missing, the output does not decode, ...) whose \<^verbatim>\<open>str\<close> is recorded.
\<close>

datatype outcome = Completed int string string | TimeoutExpired | Raised string

text \<open>
  Every call of \<^verbatim>\<open>subprocess.run\<close> in the source is a call site; the trace
  records, for each call made, its site, its argument vector and its outcome.
  \<^item> \<open>FindWhich\<close>: line 188 (in \<^verbatim>\<open>find_command\<close>);
  \<^item> \<open>CheckWhich\<close>, \<open>CheckVersion\<close>: lines 289 and 297 (in \<^verbatim>\<open>check_command\<close>);
  \<^item> \<open>Compiler\<close>, \<open>BibTool\<close>: lines 139 and 163 (in \<^verbatim>\<open>compile_latex\<close>);
  \<^item> \<open>Crop\<close>, \<open>Raster\<close>, \<open>Fallback\<close>: lines 209, 216 and 231 (in \<^verbatim>\<open>pdf_to_png\<close>);
  \<^item> \<open>Trim\<close>: line 264 (in \<^verbatim>\<open>_trim_png_inplace\<close>).
\<close>

datatype site =
  FindWhich | CheckWhich | CheckVersion | Compiler | BibTool | Crop | Raster | Fallback | Trim

datatype event = Exec site "string list" outcome

fun site_of :: "event \<Rightarrow> site" where
  "site_of (Exec k c r) = k"

fun argv_of :: "event \<Rightarrow> string list" where
  "argv_of (Exec k c r) = c"

fun outcome_of :: "event \<Rightarrow> outcome" where
  "outcome_of (Exec k c r) = r"

record 'x state =
  st_fs :: filesys
  st_ext :: 'x
  st_trace :: "event list"

record 'x env =
  env_run :: "string list \<Rightarrow> path option \<Rightarrow> nat \<Rightarrow> filesys \<Rightarrow> 'x \<Rightarrow> outcome \<times> filesys \<times> 'x"
  env_uuid4 :: "'x \<Rightarrow> string \<times> 'x"
  env_TEMP_DIR :: path

definition subprocess_run ::
  "'x env \<Rightarrow> site \<Rightarrow> string list \<Rightarrow> path option \<Rightarrow> nat \<Rightarrow> 'x state \<Rightarrow> outcome \<times> 'x state" where
  "subprocess_run E k cmd cwd timeout s =
     (case env_run E cmd cwd timeout (st_fs s) (st_ext s) of
        (r, f, x) \<Rightarrow> (r, \<lparr>st_fs = f, st_ext = x, st_trace = st_trace s @ [Exec k cmd r]\<rparr>))"

subsection \<open>Strings and paths\<close>

definition bslash :: char where
  "bslash = CHR 0x5C"

definition squote :: char where
  "squote = CHR 0x27"

definition dquote :: char where
  "dquote = CHR 0x22"

text \<open>
  A string is the list of its code points, all below 256.  \<^verbatim>\<open>repr\<close> of a string
  puts it between single quotes, or between double quotes when it holds a single quote
  and no double quote; it escapes the backslash and the quote in use, writes tab, line
  feed and carriage return as \<^verbatim>\<open>\t\<close>, \<^verbatim>\<open>\n\<close> and \<^verbatim>\<open>\r\<close>, and every other
  character for which \<^verbatim>\<open>str.isprintable\<close> is false as \<^verbatim>\<open>\x\<close> and two hexadecimal
  digits.
\<close>

definition hex_digit :: "nat \<Rightarrow> char" where
  "hex_digit n = ''0123456789abcdef'' ! (n mod 16)"

definition isprintable :: "char \<Rightarrow> bool" where
  "isprintable c = (let n = (of_char c :: nat)
                    in (32 \<le> n \<and> n < 127) \<or> (161 \<le> n \<and> n \<noteq> 173))"

definition repr_char :: "char \<Rightarrow> char \<Rightarrow> string" where
  "repr_char q c =
     (if c = q \<or> c = bslash then [bslash, c]
      else if c = CHR 0x09 then [bslash, CHR ''t'']
      else if c = CHR 0x0A then [bslash, CHR ''n'']
      else if c = CHR 0x0D then [bslash, CHR ''r'']
      else if isprintable c then [c]
      else [bslash, CHR ''x'', hex_digit (of_char c div 16), hex_digit (of_char c mod 16)])"

definition py_repr :: "string \<Rightarrow> string" where
  "py_repr x =
     (let q = (if squote \<in> set x \<and> dquote \<notin> set x then dquote else squote)
      in q # concat (map (repr_char q) x) @ [q])"

text \<open>
  \<^verbatim>\<open>str.strip()\<close> removes the leading and trailing characters for which
  \<^verbatim>\<open>str.isspace\<close> holds: below 256 these are tab to carriage return, the four
  separators 0x1C to 0x1F, the space, the next-line control 0x85 and the no-break space
  0xA0.
\<close>

definition isspace :: "char \<Rightarrow> bool" where
  "isspace c = (c \<in> set [CHR 0x09, CHR 0x0A, CHR 0x0B, CHR 0x0C, CHR 0x0D,
                          CHR 0x1C, CHR 0x1D, CHR 0x1E, CHR 0x1F, CHR 0x20,
                          CHR 0x85, CHR 0xA0])"

definition strip :: "string \<Rightarrow> string" where
  "strip x = rev (dropWhile isspace (rev (dropWhile isspace x)))"

definition endswith :: "string \<Rightarrow> string \<Rightarrow> bool" where
  "endswith x suf = suffix suf x"

text \<open>
  \<^verbatim>\<open>str(n)\<close> for an integer.
\<close>

fun str_nat :: "nat \<Rightarrow> string" where
  "str_nat n = (if n < 10 then [char_of (48 + n)]
                else str_nat (n div 10) @ [char_of (48 + n mod 10)])"

declare str_nat.simps [simp del]

definition str_int :: "int \<Rightarrow> string" where
  "str_int i = (if i < 0 then CHR ''-'' # str_nat (nat (- i)) else str_nat (nat i))"

text \<open>
  Paths are the strings \<^verbatim>\<open>str(path)\<close> gives, in normal form (no trailing slash,
  \<^verbatim>\<open>.\<close> for the current directory).  \<open>joinpath d n\<close> is \<^verbatim>\<open>d / n\<close> for a file
  name \<open>n\<close>: below the current directory the result is \<open>n\<close> itself, and the root
  brings its own slash.  \<open>parent\<close> is \<^verbatim>\<open>Path.parent\<close>, \<open>basename\<close> is
  \<^verbatim>\<open>os.path.basename\<close>, and \<open>name_of\<close> is \<^verbatim>\<open>Path.name\<close>, which is empty for
  the current directory and for the root.
\<close>

definition joinpath :: "path \<Rightarrow> string \<Rightarrow> path" where
  "joinpath d n = (if d = ''.'' then n else if d = ''/'' then d @ n else d @ ''/'' @ n)"

definition parent :: "path \<Rightarrow> path" where
  "parent p =
     (let d = rev (drop 1 (dropWhile (\<lambda>c. c \<noteq> CHR ''/'') (rev p)))
      in if CHR ''/'' \<notin> set p then ''.'' else if d = [] then ''/'' else d)"

definition basename :: "path \<Rightarrow> string" where
  "basename p = rev (takeWhile (\<lambda>c. c \<noteq> CHR ''/'') (rev p))"

definition name_of :: "path \<Rightarrow> string" where
  "name_of p = (if p = ''.'' then [] else basename p)"

text \<open>
  \<^verbatim>\<open>Path.suffix\<close>: the part of the name from its last dot, when that dot is neither
  the first nor the last character of the name.
\<close>

definition suffix_of :: "string \<Rightarrow> string" where
  "suffix_of name =
     (let e = rev (takeWhile (\<lambda>c. c \<noteq> CHR ''.'') (rev name))
      in if CHR ''.'' \<in> set name \<and> e \<noteq> [] \<and> length e + 1 < length name
         then CHR ''.'' # e else [])"

text \<open>
  \<^verbatim>\<open>path.with_suffix('')\<close>: raises \<^verbatim>\<open>ValueError\<close> (here \<open>Inl\<close> of its message)
  when the path has an empty name.
\<close>

definition with_suffix_empty :: "path \<Rightarrow> string + path" where
  "with_suffix_empty p =
     (if name_of p = [] then Inl (''PosixPath('' @ py_repr p @ '') has an empty name'')
      else Inr (take (length p - length (suffix_of (name_of p))) p))"

subsection \<open>The file system\<close>

definition path_exists :: "path \<Rightarrow> filesys \<Rightarrow> bool" where
  "path_exists p f = (map_of f p \<noteq> None)"

definition is_dir :: "path \<Rightarrow> filesys \<Rightarrow> bool" where
  "is_dir p f = (map_of f p = Some Dir)"

definition enoent :: "path \<Rightarrow> string" where
  "enoent p = ''[Errno 2] No such file or directory: '' @ py_repr p"

definition eexist :: "path \<Rightarrow> string" where
  "eexist p = ''[Errno 17] File exists: '' @ py_repr p"

definition eisdir :: "path \<Rightarrow> string" where
  "eisdir p = ''[Errno 21] Is a directory: '' @ py_repr p"

definition enotdir :: "path \<Rightarrow> string" where
  "enotdir p = ''[Errno 20] Not a directory: '' @ py_repr p"

text \<open>
  The error of creating \<open>p\<close> when its parent is not a directory: the parent is a
  file, or there is no parent.
\<close>

definition no_parent :: "path \<Rightarrow> filesys \<Rightarrow> string" where
  "no_parent p f = (case map_of f (parent p) of Some (File c) \<Rightarrow> enotdir p
                                              | Some Dir \<Rightarrow> enoent p
                                              | None \<Rightarrow> enoent p)"

text \<open>\<^verbatim>\<open>path.mkdir(exist_ok=True)\<close>; \<open>Inl\<close> is the message of the \<^verbatim>\<open>OSError\<close> raised.\<close>

definition mkdir_exist_ok :: "path \<Rightarrow> filesys \<Rightarrow> string + filesys" where
  "mkdir_exist_ok p f =
     (case map_of f p of
        Some Dir \<Rightarrow> Inr f
      | Some (File c) \<Rightarrow> Inl (eexist p)
      | None \<Rightarrow> if is_dir (parent p) f then Inr ((p, Dir) # f) else Inl (no_parent p f))"

text \<open>\<^verbatim>\<open>with open(p, 'w') as f: f.write(c)\<close>\<close>

definition write_text :: "path \<Rightarrow> string \<Rightarrow> filesys \<Rightarrow> string + filesys" where
  "write_text p c f =
     (case map_of f p of
        Some Dir \<Rightarrow> Inl (eisdir p)
      | _ \<Rightarrow> if is_dir (parent p) f then Inr ((p, File c) # f) else Inl (no_parent p f))"

text \<open>\<^verbatim>\<open>with open(p, 'rb') as f: f.read()\<close>\<close>

definition read_bytes :: "path \<Rightarrow> filesys \<Rightarrow> string + string" where
  "read_bytes p f =
     (case map_of f p of
        Some (File c) \<Rightarrow> Inr c
      | Some Dir \<Rightarrow> Inl (eisdir p)
      | None \<Rightarrow> Inl (enoent p))"

text \<open>\<^verbatim>\<open>shutil.rmtree(p)\<close>: the directory and everything below it go.\<close>

definition below :: "path \<Rightarrow> path \<Rightarrow> bool" where
  "below p q = (q = p \<or> prefix (if p = ''/'' then p else p @ ''/'') q)"

definition rmtree :: "path \<Rightarrow> filesys \<Rightarrow> string + filesys" where
  "rmtree p f =
     (case map_of f p of
        Some Dir \<Rightarrow> Inr (filter (\<lambda>(q, n). \<not> below p q) f)
      | Some (File c) \<Rightarrow> Inl (enotdir p)
      | None \<Rightarrow> Inl (enoent p))"

section \<open>ToolResolver: \<^verbatim>\<open>find_command\<close> and \<^verbatim>\<open>check_command\<close>\<close>

text \<open>
  Lines 185 to 196.  The bare \<^verbatim>\<open>except\<close> swallows every exception of the probe,
  the timeout included.
\<close>

definition find_command :: "'x env \<Rightarrow> string \<Rightarrow> 'x state \<Rightarrow> string \<times> 'x state" where
  "find_command E command s =
     (case subprocess_run E FindWhich [''which'', command] None 5 s of
        (r, s') \<Rightarrow>
          (case r of
             Completed rc out err \<Rightarrow> (if rc = 0 then strip out else command, s')
           | TimeoutExpired \<Rightarrow> (command, s')
           | Raised m \<Rightarrow> (command, s')))"

text \<open>Lines 285 to 303.\<close>

definition check_command :: "'x env \<Rightarrow> string \<Rightarrow> 'x state \<Rightarrow> bool \<times> 'x state" where
  "check_command E command s =
     (case subprocess_run E CheckWhich [''which'', command] None 5 s of
        (r, s1) \<Rightarrow>
          (case r of
             Completed rc out err \<Rightarrow>
               if rc = 0 then (True, s1)
               else (case subprocess_run E CheckVersion [command, ''--version''] None 5 s1 of
                       (r2, s2) \<Rightarrow>
                         (case r2 of
                            Completed rc2 out2 err2 \<Rightarrow> (rc2 = 0, s2)
                          | TimeoutExpired \<Rightarrow> (False, s2)
                          | Raised m \<Rightarrow> (False, s2)))
           | TimeoutExpired \<Rightarrow> (False, s1)
           | Raised m \<Rightarrow> (False, s1)))"

section \<open>ReadinessChecker: \<^verbatim>\<open>readiness_report\<close>\<close>




section \<open>CompilationEngine: \<^verbatim>\<open>compile_latex\<close>\<close>

text \<open>
  The result dictionary of \<^verbatim>\<open>compile_latex\<close>: \<^verbatim>\<open>{"success": True}\<close>, or
  \<^verbatim>\<open>{"success": False, "error": e}\<close> with a \<^verbatim>\<open>"log"\<close> entry on the
  non-zero-exit path only.
\<close>

datatype compile_result = CompileOk | CompileErr string "string option"

text \<open>
  One iteration of the loop of lines 135 to 170, for pass index \<open>i\<close>.  \<open>None\<close>
  means that the loop goes on; \<open>Some r\<close> that the function returns \<open>r\<close>: by the
  \<^verbatim>\<open>return\<close> of line 148, or from the handlers of lines 174 to 183 when a call of
  \<^verbatim>\<open>subprocess.run\<close> raises.
\<close>

definition compile_pass ::
  "'x env \<Rightarrow> path \<Rightarrow> bool \<Rightarrow> nat \<Rightarrow> 'x state \<Rightarrow> compile_result option \<times> 'x state" where
  "compile_pass E tex_file use_biblatex i s =
     (let temp_path = parent tex_file in
      case find_command E ''pdflatex'' s of (pdflatex_cmd, s1) \<Rightarrow>
      case subprocess_run E Compiler [pdflatex_cmd, ''-interaction=nonstopmode'', tex_file]
             (Some temp_path) 30 s1 of (r, s2) \<Rightarrow>
        (case r of
           TimeoutExpired \<Rightarrow> (Some (CompileErr ''LaTeX compilation timed out'' None), s2)
         | Raised m \<Rightarrow> (Some (CompileErr (''Compilation error: '' @ m) None), s2)
         | Completed rc out err \<Rightarrow>
             if rc \<noteq> 0
             then (Some (CompileErr ''LaTeX compilation failed''
                           (Some (out @ ''\<newline>'' @ err))), s2)
             else if i = 0 \<and> path_exists (joinpath temp_path ''references.bib'') (st_fs s2)
             then (case find_command E (if use_biblatex then ''biber'' else ''bibtex'') s2 of
                     (bib_tool, s3) \<Rightarrow>
                   case subprocess_run E BibTool [bib_tool, ''document'']
                          (Some temp_path) 30 s3 of (br, s4) \<Rightarrow>
                     (case br of
                        TimeoutExpired \<Rightarrow>
                          (Some (CompileErr ''LaTeX compilation timed out'' None), s4)
                      | Raised m \<Rightarrow> (Some (CompileErr (''Compilation error: '' @ m) None), s4)
                      | Completed brc bout berr \<Rightarrow> (None, s4)))
             else (None, s2)))"

text \<open>
  \<open>compile_passes E tex_file use_biblatex i k\<close> runs the \<open>k\<close> iterations with the
  indices \<open>i, i + 1, ..., i + k - 1\<close>; line 172 returns success when none is left.
\<close>

fun compile_passes ::
  "'x env \<Rightarrow> path \<Rightarrow> bool \<Rightarrow> nat \<Rightarrow> nat \<Rightarrow> 'x state \<Rightarrow> compile_result \<times> 'x state" where
  "compile_passes E tex_file use_biblatex i 0 s = (CompileOk, s)"
| "compile_passes E tex_file use_biblatex i (Suc k) s =
     (case compile_pass E tex_file use_biblatex i s of
        (Some r, s') \<Rightarrow> (r, s')
      | (None, s') \<Rightarrow> compile_passes E tex_file use_biblatex (Suc i) k s')"

text \<open>
  Lines 130 to 183.  \<^verbatim>\<open>range(passes)\<close> is empty for \<open>passes \<le> 0\<close>;
  \<^verbatim>\<open>hide_warnings\<close> is a parameter that the body never reads.
\<close>

definition compile_latex ::
  "'x env \<Rightarrow> path \<Rightarrow> int \<Rightarrow> bool \<Rightarrow> bool \<Rightarrow> 'x state \<Rightarrow> compile_result \<times> 'x state" where
  "compile_latex E tex_file passes use_biblatex hide_warnings s =
     compile_passes E tex_file use_biblatex 0 (nat passes) s"

section \<open>RasterConverter: \<^verbatim>\<open>pdf_to_png\<close>\<close>

text \<open>
  Lines 254 to 267.  Every exception inside is caught and gives \<^verbatim>\<open>False\<close>.
\<close>

definition trim_png_inplace :: "'x env \<Rightarrow> path \<Rightarrow> 'x state \<Rightarrow> bool \<times> 'x state" where
  "trim_png_inplace E png_file s =
     (case check_command E ''magick'' s of (m, s1) \<Rightarrow>
        if m
        then (case find_command E ''magick'' s1 of (trim_cmd, s2) \<Rightarrow>
              case subprocess_run E Trim [trim_cmd, png_file, ''-trim'', ''+repage'', png_file]
                     None 20 s2 of (r, s3) \<Rightarrow>
                (case r of Completed rc out err \<Rightarrow> (True, s3)
                         | TimeoutExpired \<Rightarrow> (False, s3)
                         | Raised e \<Rightarrow> (False, s3)))
        else (case check_command E ''convert'' s1 of (c, s2) \<Rightarrow>
                if c
                then (case find_command E ''convert'' s2 of (trim_cmd, s3) \<Rightarrow>
                      case subprocess_run E Trim [trim_cmd, png_file, ''-trim'', ''+repage'', png_file]
                             None 20 s3 of (r, s4) \<Rightarrow>
                        (case r of Completed rc out err \<Rightarrow> (True, s4)
                                 | TimeoutExpired \<Rightarrow> (False, s4)
                                 | Raised e \<Rightarrow> (False, s4)))
                else (False, s2)))"

datatype convert_result = ConvertOk | ConvertErr string

text \<open>The handlers of lines 243 to 252, for an exception raised by \<^verbatim>\<open>subprocess.run\<close>.\<close>

definition conversion_timed_out :: convert_result where
  "conversion_timed_out = ConvertErr ''PDF conversion timed out''"

definition conversion_error :: "string \<Rightarrow> convert_result" where
  "conversion_error m = ConvertErr (''Conversion error: '' @ m)"

text \<open>
  Lines 203 to 211: the vector crop.  The result is \<open>Inr source_pdf\<close>, or \<open>Inl r\<close>
  when the call of the cropper raises and the function returns \<open>r\<close> from a handler.
\<close>

definition crop_step ::
  "'x env \<Rightarrow> path \<Rightarrow> bool \<Rightarrow> 'x state \<Rightarrow> (convert_result + path) \<times> 'x state" where
  "crop_step E pdf_file crop s =
     (if crop
      then (case check_command E ''pdfcrop'' s of (av, s1) \<Rightarrow>
              if av
              then (let cropped_pdf = joinpath (parent pdf_file) ''document-cropped.pdf'' in
                    case find_command E ''pdfcrop'' s1 of (pdfcrop_cmd, s2) \<Rightarrow>
                    case subprocess_run E Crop
                           [pdfcrop_cmd, ''--margins'', ''3'', pdf_file, cropped_pdf]
                           None 30 s2 of (r, s3) \<Rightarrow>
                      (case r of
                         TimeoutExpired \<Rightarrow> (Inl conversion_timed_out, s3)
                       | Raised m \<Rightarrow> (Inl (conversion_error m), s3)
                       | Completed rc out err \<Rightarrow>
                           (Inr (if path_exists cropped_pdf (st_fs s3)
                                 then cropped_pdf else pdf_file), s3)))
              else (Inr pdf_file, s1))
      else (Inr pdf_file, s))"

text \<open>Lines 224 to 241: the fallback to ImageMagick, entered when the primary tool exits non-zero.\<close>

definition fallback_step ::
  "'x env \<Rightarrow> path \<Rightarrow> path \<Rightarrow> int \<Rightarrow> bool \<Rightarrow> 'x state \<Rightarrow> convert_result \<times> 'x state" where
  "fallback_step E source_pdf png_file dpi crop s =
     (case check_command E ''convert'' s of (c, s1) \<Rightarrow>
      case find_command E (if c then ''convert'' else ''magick'') s1 of (convert_cmd, s2) \<Rightarrow>
      case subprocess_run E Fallback
             (if basename convert_cmd = ''magick''
              then [convert_cmd, ''-density'', str_int dpi, source_pdf, png_file]
              else [convert_cmd, ''-density'', str_int dpi, source_pdf, png_file])
             None 30 s2 of (r, s3) \<Rightarrow>
        (case r of
           TimeoutExpired \<Rightarrow> (conversion_timed_out, s3)
         | Raised m \<Rightarrow> (conversion_error m, s3)
         | Completed rc out err \<Rightarrow>
             if rc = 0
             then (if crop
                   then (case trim_png_inplace E png_file s3 of (t, s4) \<Rightarrow> (ConvertOk, s4))
                   else (ConvertOk, s3))
             else (ConvertErr (''Failed to convert PDF to PNG. pdftoppm result: '' @ err
                               @ '', convert not available.''), s3)))"

text \<open>Lines 198 to 252.\<close>

definition pdf_to_png ::
  "'x env \<Rightarrow> path \<Rightarrow> path \<Rightarrow> int \<Rightarrow> bool \<Rightarrow> 'x state \<Rightarrow> convert_result \<times> 'x state" where
  "pdf_to_png E pdf_file png_file dpi crop s =
     (case crop_step E pdf_file crop s of
        (Inl r, s1) \<Rightarrow> (r, s1)
      | (Inr source_pdf, s1) \<Rightarrow>
     (case find_command E ''pdftoppm'' s1 of (pdftoppm_cmd, s2) \<Rightarrow>
     (case with_suffix_empty png_file of
        Inl m \<Rightarrow> (conversion_error m, s2)
      | Inr stem \<Rightarrow>
     (case subprocess_run E Raster
             [pdftoppm_cmd, ''-png'', ''-singlefile'', ''-r'', str_int dpi, source_pdf, stem]
             None 30 s2 of (r, s3) \<Rightarrow>
        (case r of
           TimeoutExpired \<Rightarrow> (conversion_timed_out, s3)
         | Raised m \<Rightarrow> (conversion_error m, s3)
         | Completed rc out err \<Rightarrow>
             if rc = 0
             then (if crop \<and> \<not> endswith source_pdf ''document-cropped.pdf''
                   then (case trim_png_inplace E png_file s3 of (t, s4) \<Rightarrow> (ConvertOk, s4))
                   else (ConvertOk, s3))
             else fallback_step E source_pdf png_file dpi crop s3)))))"

section \<open>DocumentAssembler and WorkspaceManager: \<^verbatim>\<open>render_snippet\<close>\<close>

text \<open>Lines 29 to 39: the raw string starts and ends with a line break.\<close>

definition BASE_PREAMBLE :: string where
  "BASE_PREAMBLE =
     ''\<newline>'' @
     bslash # ''documentclass[11pt]{article}\<newline>'' @
     bslash # ''usepackage[margin=0.5in]{geometry}\<newline>'' @
     bslash # ''usepackage{amsmath,amsfonts,amssymb}\<newline>'' @
     bslash # ''usepackage{siunitx}\<newline>'' @
     bslash # ''usepackage{booktabs}\<newline>'' @
     bslash # ''usepackage{graphicx}\<newline>'' @
     bslash # ''usepackage{float}\<newline>'' @
     bslash # ''usepackage[hidelinks]{hyperref}\<newline>'' @
     bslash # ''usepackage{microtype}\<newline>''"

text \<open>
  The truth value of \<^verbatim>\<open>bib_entries\<close> in \<^verbatim>\<open>if bib_entries:\<close> (lines 58 and 84):
  \<^verbatim>\<open>None\<close> and the empty string are false.
\<close>

fun truthy :: "string option \<Rightarrow> bool" where
  "truthy None = False"
| "truthy (Some e) = (e \<noteq> [])"

text \<open>Lines 55 to 76.\<close>

definition assemble_document :: "string \<Rightarrow> string \<Rightarrow> string option \<Rightarrow> bool \<Rightarrow> string" where
  "assemble_document body preamble_extra bib_entries use_biblatex =
     (let full_preamble0 = BASE_PREAMBLE @ ''\<newline>'' @ preamble_extra;
          full_preamble =
            (if truthy bib_entries
             then (if use_biblatex
                   then full_preamble0
                        @ (''\<newline>'' @ bslash # ''usepackage[style=numeric]{biblatex}'')
                        @ (''\<newline>'' @ bslash # ''addbibresource{references.bib}'')
                   else full_preamble0 @ (''\<newline>'' @ bslash # ''usepackage{natbib}''))
             else full_preamble0);
          bib_command =
            (if truthy bib_entries
             then (if use_biblatex then bslash # ''printbibliography''
                   else bslash # ''bibliography{references}'')
             else [])
      in ''\<newline>'' @ full_preamble @ ''\<newline>\<newline>'' @ bslash # ''begin{document}\<newline>''
         @ body @ ''\<newline>'' @ bib_command @ ''\<newline>'' @ bslash # ''end{document}\<newline>'')"

text \<open>
  Lines 49 to 87: the workspace is allocated and filled.  \<open>Inl m\<close> is an exception
  with message \<open>m\<close>, on its way to the handler of line 124; \<open>Inr\<close> carries
  \<^verbatim>\<open>temp_id\<close> and \<^verbatim>\<open>temp_path\<close>.
\<close>

definition stage_workspace ::
  "'x env \<Rightarrow> string \<Rightarrow> string \<Rightarrow> string option \<Rightarrow> bool \<Rightarrow> 'x state
     \<Rightarrow> (string + string \<times> path) \<times> 'x state" where
  "stage_workspace E body preamble_extra bib_entries use_biblatex s =
     (case env_uuid4 E (st_ext s) of (temp_id, x) \<Rightarrow>
     (let s0 = s\<lparr>st_ext := x\<rparr>;
          temp_path = joinpath (env_TEMP_DIR E) temp_id
      in case mkdir_exist_ok temp_path (st_fs s0) of
           Inl m \<Rightarrow> (Inl m, s0)
         | Inr f1 \<Rightarrow>
             (let latex_content = assemble_document body preamble_extra bib_entries use_biblatex
              in case write_text (joinpath temp_path ''document.tex'') latex_content f1 of
                   Inl m \<Rightarrow> (Inl m, s0\<lparr>st_fs := f1\<rparr>)
                 | Inr f2 \<Rightarrow>
                     (case bib_entries of
                        None \<Rightarrow> (Inr (temp_id, temp_path), s0\<lparr>st_fs := f2\<rparr>)
                      | Some e \<Rightarrow>
                          if truthy bib_entries
                          then (case write_text (joinpath temp_path ''references.bib'') e f2 of
                                  Inl m \<Rightarrow> (Inl m, s0\<lparr>st_fs := f2\<rparr>)
                                | Inr f3 \<Rightarrow> (Inr (temp_id, temp_path), s0\<lparr>st_fs := f3\<rparr>))
                          else (Inr (temp_id, temp_path), s0\<lparr>st_fs := f2\<rparr>)))))"

text \<open>\<^verbatim>\<open>base64.b64encode\<close>, on bytes as characters.\<close>

definition b64_alphabet :: string where
  "b64_alphabet = ''ABCDEFGHIJKLMNOPQRSTUVWXYZabcdefghijklmnopqrstuvwxyz0123456789+/''"

definition b64_digit :: "nat \<Rightarrow> char" where
  "b64_digit n = b64_alphabet ! (n mod 64)"

fun b64_bytes :: "nat list \<Rightarrow> string" where
  "b64_bytes [] = []"
| "b64_bytes [a] = [b64_digit (a div 4), b64_digit ((a mod 4) * 16), CHR ''='', CHR ''='']"
| "b64_bytes [a, b] =
     [b64_digit (a div 4), b64_digit ((a mod 4) * 16 + b div 16),
      b64_digit ((b mod 16) * 4), CHR ''='']"
| "b64_bytes (a # b # c # r) =
     [b64_digit (a div 4), b64_digit ((a mod 4) * 16 + b div 16),
      b64_digit ((b mod 16) * 4 + c div 64), b64_digit (c mod 64)] @ b64_bytes r"

definition b64encode :: "string \<Rightarrow> string" where
  "b64encode x = b64_bytes (map of_char x)"

text \<open>
  The result dictionary of \<^verbatim>\<open>render_snippet\<close>: on success \<^verbatim>\<open>image_data\<close> and
  \<^verbatim>\<open>temp_id\<close>; on failure \<^verbatim>\<open>error\<close>, and \<^verbatim>\<open>log\<close> where the source gives one.
\<close>

datatype render_result = RenderOk string string | RenderErr string "string option"

definition unexpected_error :: "string \<Rightarrow> render_result" where
  "unexpected_error m = RenderErr (''Unexpected error: '' @ m) None"

text \<open>
  Lines 41 to 128.  \<^verbatim>\<open>sanitize_graphics\<close> and \<^verbatim>\<open>hide_warnings\<close> are parameters
  as in the source.
\<close>

definition render_snippet ::
  "'x env \<Rightarrow> string \<Rightarrow> string \<Rightarrow> bool \<Rightarrow> int \<Rightarrow> string option \<Rightarrow> bool \<Rightarrow> bool \<Rightarrow> 'x state
     \<Rightarrow> render_result \<times> 'x state" where
  "render_snippet E body preamble_extra sanitize_graphics passes bib_entries use_biblatex
       hide_warnings s =
     (case stage_workspace E body preamble_extra bib_entries use_biblatex s of
        (Inl m, s1) \<Rightarrow> (unexpected_error m, s1)
      | (Inr (temp_id, temp_path), s1) \<Rightarrow>
     (case compile_latex E (joinpath temp_path ''document.tex'') passes use_biblatex
             hide_warnings s1 of
        (CompileErr e lg, s2) \<Rightarrow>
          (RenderErr e (Some (case lg of Some l \<Rightarrow> l | None \<Rightarrow> [])), s2)
      | (CompileOk, s2) \<Rightarrow>
     (let pdf_file = joinpath temp_path ''document.pdf'';
          png_file = joinpath temp_path ''document.png''
      in case pdf_to_png E pdf_file png_file 300 True s2 of
           (ConvertErr e, s3) \<Rightarrow> (RenderErr e None, s3)
         | (ConvertOk, s3) \<Rightarrow>
             (case read_bytes png_file (st_fs s3) of
                Inl m \<Rightarrow> (unexpected_error m, s3)
              | Inr bytes \<Rightarrow>
                  (case rmtree temp_path (st_fs s3) of
                     Inl m \<Rightarrow> (unexpected_error m, s3)
                   | Inr f \<Rightarrow> (RenderOk (b64encode bytes) temp_id, s3\<lparr>st_fs := f\<rparr>))))))"

section \<open>The public interface: \<^verbatim>\<open>api_compile\<close>\<close>

text \<open>
  Lines 316 to 337.  The JSON object of the request holds the entries that
  \<^verbatim>\<open>api_compile\<close> reads, each typed as the parameter of \<^verbatim>\<open>render_snippet\<close> it
  becomes; an entry that the request leaves out is \<open>None\<close>.  A request without a JSON
  object is \<open>None\<close>.  \<open>get_or v d\<close> is \<^verbatim>\<open>data.get(key, d)\<close>.  The response is the
  dictionary handed to \<^verbatim>\<open>jsonify\<close> and the HTTP status.
\<close>

record request =
  req_body :: "string option"
  req_preamble_extra :: "string option"
  req_sanitize_graphics :: "bool option"
  req_passes :: "int option"
  req_bib_entries :: "string option"
  req_use_biblatex :: "bool option"
  req_hide_warnings :: "bool option"

definition get_or :: "'a option \<Rightarrow> 'a \<Rightarrow> 'a" where
  "get_or v d = (case v of Some x \<Rightarrow> x | None \<Rightarrow> d)"

definition missing_body :: "render_result \<times> nat" where
  "missing_body = (RenderErr (''Missing '' @ squote # ''body'' @ squote # '' parameter'') None, 400)"

definition api_compile ::
  "'x env \<Rightarrow> request option \<Rightarrow> 'x state \<Rightarrow> (render_result \<times> nat) \<times> 'x state" where
  "api_compile E data s =
     (case data of
        None \<Rightarrow> (missing_body, s)
      | Some d \<Rightarrow>
          (case req_body d of
             None \<Rightarrow> (missing_body, s)
           | Some body \<Rightarrow>
               (case render_snippet E body
                       (get_or (req_preamble_extra d) [])
                       (get_or (req_sanitize_graphics d) True)
                       (get_or (req_passes d) 1)
                       (req_bib_entries d)
                       (get_or (req_use_biblatex d) False)
                       (get_or (req_hide_warnings d) False) s of
                  (result, s') \<Rightarrow> ((result, 200), s'))))"

section \<open>A scripted world for concrete runs\<close>

text \<open>
  The private state is a script: the answers that the successive tool invocations
  give, each with the files the tool leaves behind.  When the script is used up no
  executable is found any more.  The identifier drawn is always the same.
\<close>

type_synonym script = "(outcome \<times> filesys) list"

definition script_run ::
  "string list \<Rightarrow> path option \<Rightarrow> nat \<Rightarrow> filesys \<Rightarrow> script \<Rightarrow> outcome \<times> filesys \<times> script" where
  "script_run cmd cwd timeout f x =
     (case x of
        [] \<Rightarrow> (Raised (enoent (case cmd of [] \<Rightarrow> [] | c # cs \<Rightarrow> c)), f, [])
      | (r, new) # rest \<Rightarrow> (r, new @ f, rest))"

definition script_env :: "script env" where
  "script_env =
     \<lparr>env_run = script_run,
      env_uuid4 = (\<lambda>x. (''1b4e28ba-2fa1-41d2-883f-0016d3cca427'', x)),
      env_TEMP_DIR = ''/srv/temp''\<rparr>"

definition start :: "script \<Rightarrow> script state" where
  "start x = \<lparr>st_fs = [(''/srv/temp'', Dir)], st_ext = x, st_trace = []\<rparr>"

section \<open>Vocabulary for traces\<close>

text \<open>The events a call has added to the trace, and how many of them come from one site.\<close>

definition events_since :: "'x state \<Rightarrow> 'x state \<Rightarrow> event list" where
  "events_since s s' = drop (length (st_trace s)) (st_trace s')"

definition count_site :: "site \<Rightarrow> event list \<Rightarrow> nat" where
  "count_site k tr = length (filter (\<lambda>e. site_of e = k) tr)"

text \<open>A compiler pass that exited with a non-zero status, and the log line 151 builds from it.\<close>

definition failing_pass :: "event \<Rightarrow> bool" where
  "failing_pass e = (case e of Exec k c r \<Rightarrow>
      k = Compiler \<and> (case r of Completed rc out err \<Rightarrow> rc \<noteq> 0 | _ \<Rightarrow> False))"

definition log_of :: "event \<Rightarrow> string" where
  "log_of e = (case outcome_of e of Completed rc out err \<Rightarrow> out @ ''\<newline>'' @ err | _ \<Rightarrow> [])"

text \<open>
  The invariant of the pass loop: no event before the last one is a failing pass, and when
  the last one is, the result carries its log.
\<close>

definition abort_inv :: "event list \<Rightarrow> compile_result \<Rightarrow> bool" where
  "abort_inv new r = ((\<forall>e\<in>set (butlast new). \<not> failing_pass e)
     \<and> (new \<noteq> [] \<and> failing_pass (last new) \<longrightarrow>
          r = CompileErr ''LaTeX compilation failed'' (Some (log_of (last new)))))"

text \<open>
  Following the spec's words (section 3, CompilationResult): the log is the
  ``concatenated standard output/error of all passes up to and including the failing
  one''.  This is the specification's reading, to be compared with \<open>log_of\<close>.
\<close>

definition spec_accumulated_log :: "event list \<Rightarrow> string" where
  "spec_accumulated_log tr =
     concat (map (\<lambda>e. case outcome_of e of Completed rc out err \<Rightarrow> out @ err
                                          | TimeoutExpired \<Rightarrow> [] | Raised m \<Rightarrow> [])
                 (filter (\<lambda>e. site_of e = Compiler) tr))"

text \<open>
  A world that differs from \<open>E\<close> only in the exit status the bibliography tool reports:
  \<^verbatim>\<open>compile_latex\<close> invokes it as \<^verbatim>\<open>[tool, "document"]\<close>, and no other
  command of \<^verbatim>\<open>compile_latex\<close> has this shape.  Two states are the same world when
  they agree on everything but the trace.
\<close>

definition bib_shaped :: "string list \<Rightarrow> bool" where
  "bib_shaped cmd = (case cmd of [b, d] \<Rightarrow> d = ''document'' | _ \<Rightarrow> False)"

definition with_bib_status :: "(int \<Rightarrow> int) \<Rightarrow> 'x env \<Rightarrow> 'x env" where
  "with_bib_status g E =
     E\<lparr>env_run := (\<lambda>cmd cwd t f x.
          case env_run E cmd cwd t f x of
            (r, f', x') \<Rightarrow>
              (if bib_shaped cmd
               then (case r of Completed rc out err \<Rightarrow> Completed (g rc) out err
                             | TimeoutExpired \<Rightarrow> TimeoutExpired
                             | Raised m \<Rightarrow> Raised m)
               else r, f', x'))\<rparr>"

definition same_world :: "'x state \<Rightarrow> 'x state \<Rightarrow> bool" where
  "same_world s t = (st_fs s = st_fs t \<and> st_ext s = st_ext t)"

definition same_kind :: "outcome \<Rightarrow> outcome \<Rightarrow> bool" where
  "same_kind a b = (case a of Completed rc out err \<Rightarrow> (\<exists>rc'. b = Completed rc' out err) | _ \<Rightarrow> b = a)"

definition status_zero :: "int \<Rightarrow> int" where
  "status_zero rc = 0"

subsection \<open>Events of a conversion\<close>

definition trim_probe :: "event \<Rightarrow> bool" where
  "trim_probe e = (site_of e = CheckWhich \<and> argv_of e = [''which'', ''magick''])"

definition quiet :: "event \<Rightarrow> bool" where
  "quiet e = (site_of e \<noteq> Crop \<and> site_of e \<noteq> Raster \<and> site_of e \<noteq> Fallback
              \<and> site_of e \<noteq> Trim \<and> \<not> trim_probe e)"

definition trim_tail :: "event \<Rightarrow> bool" where
  "trim_tail e = (site_of e \<noteq> Crop \<and> site_of e \<noteq> Raster \<and> site_of e \<noteq> Fallback)"

text \<open>The result a handler of lines 243 to 252 gives for an outcome that is an exception.\<close>

definition handled :: "outcome \<Rightarrow> convert_result" where
  "handled r = (case r of Completed rc out err \<Rightarrow> ConvertOk
                        | TimeoutExpired \<Rightarrow> conversion_timed_out
                        | Raised m \<Rightarrow> conversion_error m)"

definition is_completed :: "outcome \<Rightarrow> bool" where
  "is_completed r = (case r of Completed rc out err \<Rightarrow> True | _ \<Rightarrow> False)"

definition exit_zero :: "outcome \<Rightarrow> bool" where
  "exit_zero r = (case r of Completed rc out err \<Rightarrow> rc = 0 | _ \<Rightarrow> False)"

definition stderr_of :: "outcome \<Rightarrow> string" where
  "stderr_of r = (case r of Completed rc out err \<Rightarrow> err | _ \<Rightarrow> [])"

definition failed_to_convert :: "string \<Rightarrow> convert_result" where
  "failed_to_convert err =
     ConvertErr (''Failed to convert PDF to PNG. pdftoppm result: '' @ err
                 @ '', convert not available.'')"

definition before_raster :: "event \<Rightarrow> bool" where
  "before_raster e = (site_of e \<noteq> Raster \<and> site_of e \<noteq> Fallback \<and> site_of e \<noteq> Trim
                      \<and> \<not> trim_probe e)"

definition raster_argv :: "string \<Rightarrow> int \<Rightarrow> path \<Rightarrow> path \<Rightarrow> string list" where
  "raster_argv bin dpi src stem = [bin, ''-png'', ''-singlefile'', ''-r'', str_int dpi, src, stem]"

definition trim_entered :: "event list \<Rightarrow> bool" where
  "trim_entered tr = list_ex trim_probe tr"

definition trim_run :: "event list \<Rightarrow> bool" where
  "trim_run tr = (0 < count_site Trim tr)"

definition crop_ran :: "event list \<Rightarrow> bool" where
  "crop_ran tr = (0 < count_site Crop tr)"


text \<open>
  A call adds only events with property \<open>P\<close>: the trace it leaves extends the trace it
  found, by events that all satisfy \<open>P\<close>.  The sites of a conversion are all the sites
  other than the two of \<^verbatim>\<open>compile_latex\<close>.
\<close>

definition adds_only :: "(event \<Rightarrow> bool) \<Rightarrow> 'x state \<Rightarrow> 'x state \<Rightarrow> bool" where
  "adds_only P s s' = (prefix (st_trace s) (st_trace s') \<and> list_all P (events_since s s'))"

definition convert_site :: "event \<Rightarrow> bool" where
  "convert_site e = (site_of e \<noteq> Compiler \<and> site_of e \<noteq> BibTool)"

section \<open>Concrete scenarios\<close>

text \<open>The workspace of the scripted world, and the files \<^verbatim>\<open>render_snippet\<close> puts there.\<close>

definition ws :: path where
  "ws = ''/srv/temp/1b4e28ba-2fa1-41d2-883f-0016d3cca427''"

definition tex_path :: path where
  "tex_path = ''/srv/temp/1b4e28ba-2fa1-41d2-883f-0016d3cca427/document.tex''"

definition bib_path :: path where
  "bib_path = ''/srv/temp/1b4e28ba-2fa1-41d2-883f-0016d3cca427/references.bib''"

text \<open>A workspace as \<^verbatim>\<open>render_snippet\<close> hands it to the compiler, with a bibliography file.\<close>

definition staged :: "script \<Rightarrow> script state" where
  "staged x = \<lparr>st_fs = [(bib_path, File ''@book{k, title = {T}}''),
                       (tex_path, File ''(document)''),
                       (ws, Dir), (''/srv/temp'', Dir)],
               st_ext = x, st_trace = []\<rparr>"

definition found_pdflatex :: "outcome \<times> filesys" where
  "found_pdflatex = (Completed 0 ''/usr/bin/pdflatex\<newline>'' [], [])"

definition found_bibtex :: "outcome \<times> filesys" where
  "found_bibtex = (Completed 0 ''/usr/bin/bibtex\<newline>'' [], [])"

text \<open>Compiler scripts: pass 0 fails; two good passes around a failing run of bibtex; pass 1 fails.\<close>

definition pass0_fails :: script where
  "pass0_fails = [found_pdflatex, (Completed 1 ''! Undefined control sequence.'' [], [])]"

definition two_passes :: script where
  "two_passes = [found_pdflatex, (Completed 0 ''first pass'' [], []),
                 found_bibtex, (Completed 2 ''I found no citation commands'' [], []),
                 found_pdflatex, (Completed 0 ''second pass'' [], [])]"

definition pass1_fails :: script where
  "pass1_fails = [found_pdflatex, (Completed 0 ''first pass'' ''warning one'', []),
                  found_pdflatex, (Completed 1 ''second pass'' ''error two'', [])]"



subsection \<open>Conversions\<close>

definition pdf_path :: path where
  "pdf_path = ''/srv/temp/1b4e28ba-2fa1-41d2-883f-0016d3cca427/document.pdf''"

definition png_path :: path where
  "png_path = ''/srv/temp/1b4e28ba-2fa1-41d2-883f-0016d3cca427/document.png''"

definition png_stem :: path where
  "png_stem = ''/srv/temp/1b4e28ba-2fa1-41d2-883f-0016d3cca427/document''"

definition cropped_path :: path where
  "cropped_path = ''/srv/temp/1b4e28ba-2fa1-41d2-883f-0016d3cca427/document-cropped.pdf''"

text \<open>A workspace after a successful compilation.\<close>

definition compiled :: "script \<Rightarrow> script state" where
  "compiled x = \<lparr>st_fs = [(pdf_path, File ''%PDF-1.5''),
                         (tex_path, File ''(document)''),
                         (ws, Dir), (''/srv/temp'', Dir)],
                 st_ext = x, st_trace = []\<rparr>"

definition found :: "string \<Rightarrow> outcome \<times> filesys" where
  "found p = (Completed 0 (p @ ''\<newline>'') [], [])"

definition not_found :: "outcome \<times> filesys" where
  "not_found = (Completed 1 [] [], [])"

definition cannot_start :: "string \<Rightarrow> outcome \<times> filesys" where
  "cannot_start name = (Raised (enoent name), [])"

text \<open>
  The cropper works, the primary rasterizer exits with status 1, \<^verbatim>\<open>convert\<close> works
  (as rasterizer and then as trimmer; there is no \<^verbatim>\<open>magick\<close>).
\<close>

definition crop_then_fallback :: script where
  "crop_then_fallback =
     [found ''/usr/bin/pdfcrop'', found ''/usr/bin/pdfcrop'',
      (Completed 0 ''==> 1 page written on document-cropped.pdf'' [],
         [(cropped_path, File ''%PDF-1.5 cropped'')]),
      found ''/usr/bin/pdftoppm'',
      (Completed 1 [] ''Syntax Error: could not read the page'', []),
      found ''/usr/bin/convert'', found ''/usr/bin/convert'',
      (Completed 0 [] [], [(png_path, File ''PNG'')]),
      not_found, cannot_start ''magick'',
      found ''/usr/bin/convert'', found ''/usr/bin/convert'',
      (Completed 0 [] [], [])]"

text \<open>
  The cropper works and the primary rasterizer, run on the cropped PDF, works too.
\<close>

definition crop_then_primary :: script where
  "crop_then_primary =
     [found ''/usr/bin/pdfcrop'', found ''/usr/bin/pdfcrop'',
      (Completed 0 ''==> 1 page written on document-cropped.pdf'' [],
         [(cropped_path, File ''%PDF-1.5 cropped'')]),
      found ''/usr/bin/pdftoppm'',
      (Completed 0 [] [], [(png_path, File ''PNG'')])]"

text \<open>No cropper; the primary rasterizer works; \<^verbatim>\<open>magick\<close> trims.\<close>

definition primary_works :: script where
  "primary_works =
     [not_found, cannot_start ''pdfcrop'',
      found ''/usr/bin/pdftoppm'',
      (Completed 0 [] [], [(png_path, File ''PNG'')]),
      found ''/usr/bin/magick'', found ''/usr/bin/magick'',
      (Completed 0 [] [], [])]"


text \<open>No cropper; both rasterizers exit with status 1.\<close>

definition both_fail :: script where
  "both_fail =
     [not_found, cannot_start ''pdfcrop'',
      found ''/usr/bin/pdftoppm'',
      (Completed 1 [] ''Syntax Error: could not read the page'', []),
      found ''/usr/bin/convert'', found ''/usr/bin/convert'',
      (Completed 1 [] ''convert: no decode delegate'', [])]"


definition convert_in :: "script \<Rightarrow> convert_result \<times> script state" where
  "convert_in x = pdf_to_png script_env pdf_path png_path 300 True (compiled x)"

definition events_in :: "script \<Rightarrow> event list" where
  "events_in x = events_since (compiled x) (snd (convert_in x))"

subsection \<open>Whole requests\<close>

definition bad_body :: string where
  "bad_body = bslash # ''badcommand{x}''"

definition good_body :: string where
  "good_body = ''$E=mc^2$''"

definition some_entries :: string where
  "some_entries = ''@book{k, title = {T}}''"

definition render_ok :: script where
  "render_ok =
     [found ''/usr/bin/pdflatex'',
      (Completed 0 ''Output written on document.pdf (1 page).'' [],
         [(pdf_path, File ''%PDF-1.5'')])]
     @ primary_works"

definition render_in :: "string \<Rightarrow> script \<Rightarrow> render_result \<times> script state" where
  "render_in body x = render_snippet script_env body [] True 1 None False False (start x)"

text \<open>
  A request that asks for no pass at all, and its answer: the body and the pass count are
  given, every other entry is left out.
\<close>

definition no_pass_request :: "int \<Rightarrow> request" where
  "no_pass_request n =
     \<lparr>req_body = Some good_body, req_preamble_extra = None, req_sanitize_graphics = None,
      req_passes = Some n, req_bib_entries = None, req_use_biblatex = None,
      req_hide_warnings = None\<rparr>"

definition answer_in :: "int \<Rightarrow> script \<Rightarrow> (render_result \<times> nat) \<times> script state" where
  "answer_in n x = api_compile script_env (Some (no_pass_request n)) (start x)"

section \<open>How the calls extend the trace\<close>

lemma subprocess_run_trace:
  "subprocess_run E k cmd cwd t s = (r, s') \<Longrightarrow> st_trace s' = st_trace s @ [Exec k cmd r]"
  by (auto simp: subprocess_run_def split: prod.splits)

lemma find_command_trace:
  "find_command E c s = (p, s') \<Longrightarrow> \<exists>r. st_trace s' = st_trace s @ [Exec FindWhich [''which'', c] r]"
  by (auto simp: find_command_def split: prod.splits outcome.splits dest: subprocess_run_trace)

lemma compile_pass_trace:
  assumes "compile_pass E tex bl i s = (res, s')"
  shows "\<exists>w c r rest. st_trace s' = st_trace s @ Exec FindWhich [''which'', ''pdflatex''] w # Exec Compiler c r # rest
     \<and> (\<forall>e\<in>set rest. site_of e = FindWhich \<or> site_of e = BibTool)
     \<and> (0 < i \<longrightarrow> rest = [])
     \<and> (res = None \<longrightarrow> (\<exists>out err. r = Completed 0 out err))
     \<and> (\<forall>rc out err. r = Completed rc out err \<and> rc \<noteq> 0 \<longrightarrow>
           rest = [] \<and> res = Some (CompileErr ''LaTeX compilation failed'' (Some (out @ ''\<newline>'' @ err))))"
proof -
  obtain pc s1 where f: "find_command E ''pdflatex'' s = (pc, s1)" by force
  obtain r s2 where c: "subprocess_run E Compiler [pc, ''-interaction=nonstopmode'', tex] (Some (parent tex)) 30 s1 = (r, s2)" by force
  from find_command_trace [OF f] obtain w where t1: "st_trace s1 = st_trace s @ [Exec FindWhich [''which'', ''pdflatex''] w]" by blast
  from subprocess_run_trace [OF c] have t2: "st_trace s2 = st_trace s1 @ [Exec Compiler [pc, ''-interaction=nonstopmode'', tex] r]" .
  show ?thesis
  proof (cases "\<exists>out err. r = Completed 0 out err \<and> i = 0 \<and> path_exists (joinpath (parent tex) ''references.bib'') (st_fs s2)")
    case False
    then have "s' = s2 \<and> (res = None \<longrightarrow> (\<exists>out err. r = Completed 0 out err)) 
       \<and> (\<forall>rc out err. r = Completed rc out err \<and> rc \<noteq> 0 \<longrightarrow> res = Some (CompileErr ''LaTeX compilation failed'' (Some (out @ ''\<newline>'' @ err))))"
      using assms f c by (auto simp: compile_pass_def Let_def split: outcome.splits if_splits)
    then show ?thesis using t1 t2 by auto
  next
    case True
    then obtain out err where r: "r = Completed 0 out err" and i: "i = 0"
      and b: "path_exists (joinpath (parent tex) ''references.bib'') (st_fs s2)" by blast
    obtain bt s3 where fb: "find_command E (if bl then ''biber'' else ''bibtex'') s2 = (bt, s3)" by force
    obtain br s4 where rb: "subprocess_run E BibTool [bt, ''document''] (Some (parent tex)) 30 s3 = (br, s4)" by force
    from find_command_trace [OF fb] obtain w2 where t3: "st_trace s3 = st_trace s2 @ [Exec FindWhich [''which'', if bl then ''biber'' else ''bibtex''] w2]" by blast
    from subprocess_run_trace [OF rb] have t4: "st_trace s4 = st_trace s3 @ [Exec BibTool [bt, ''document''] br]" .
    have "s' = s4"
      using assms f c r i b fb rb by (auto simp: compile_pass_def Let_def split: outcome.splits)
    then show ?thesis using t1 t2 t3 t4 r i by auto
  qed
qed

section \<open>ToolResolver\<close>

text \<open>
  Claim C7.  \<^verbatim>\<open>find_command\<close> never raises: the model is a total function whose
  every branch, the timeout and the other exceptions of the probe included, returns a
  string.  Whenever the probe does not complete with status 0 (it exits non-zero, times
  out or raises), the result is the bare name, unchanged.
\<close>

theorem find_command_fallback:
  assumes "subprocess_run E FindWhich [''which'', command] None 5 s = (r, s')"
    and "\<forall>out err. r \<noteq> Completed 0 out err"
  shows "find_command E command s = (command, s')"
  using assms by (auto simp: find_command_def split: outcome.splits)

theorem find_command_fallback_witness:
  "subprocess_run script_env FindWhich [''which'', ''pdflatex''] None 5
       (start [(Completed 1 [] ''which: no pdflatex in (/usr/bin)'', [])])
     = (Completed 1 [] ''which: no pdflatex in (/usr/bin)'',
        \<lparr>st_fs = [(''/srv/temp'', Dir)], st_ext = [],
         st_trace = [Exec FindWhich [''which'', ''pdflatex'']
                       (Completed 1 [] ''which: no pdflatex in (/usr/bin)'')]\<rparr>)
   \<and> fst (find_command script_env ''pdflatex''
             (start [(Completed 1 [] ''which: no pdflatex in (/usr/bin)'', [])])) = ''pdflatex''"
proof -
  let ?s = "start [(Completed 1 [] ''which: no pdflatex in (/usr/bin)'', [])]"
  let ?r = "Completed 1 [] ''which: no pdflatex in (/usr/bin)''"
  let ?s' = "\<lparr>st_fs = [(''/srv/temp'', Dir)], st_ext = [],
         st_trace = [Exec FindWhich [''which'', ''pdflatex''] ?r]\<rparr>"
  have h: "subprocess_run script_env FindWhich [''which'', ''pdflatex''] None 5 ?s = (?r, ?s')"
    by (simp add: subprocess_run_def script_env_def script_run_def start_def)
  have n: "\<forall>out err. ?r \<noteq> Completed 0 out err" by simp
  show ?thesis using h find_command_fallback [OF h n] by simp
qed

section \<open>ReadinessChecker\<close>




section \<open>CompilationEngine\<close>

subsection \<open>Abort on the first failing pass\<close>

lemma abort_inv_append:
  assumes "\<forall>e\<in>set pre. \<not> failing_pass e" and "abort_inv new r"
  shows "abort_inv (pre @ new) r"
proof (cases "new = []")
  case True
  have "last pre \<in> set pre" if "pre \<noteq> []" using that by simp
  then show ?thesis using assms True by (auto simp: abort_inv_def dest: in_set_butlastD)
next
  case False
  then show ?thesis using assms by (auto simp: abort_inv_def butlast_append)
qed

lemma compile_pass_inv:
  assumes "compile_pass E tex bl i s = (res, s')"
  shows "\<exists>new. st_trace s' = st_trace s @ new \<and>
     (case res of None \<Rightarrow> (\<forall>e\<in>set new. \<not> failing_pass e) | Some r \<Rightarrow> abort_inv new r)"
proof -
  from compile_pass_trace [OF assms] obtain w c r0 rest where
    h: "st_trace s' = st_trace s @ Exec FindWhich [''which'', ''pdflatex''] w # Exec Compiler c r0 # rest
     \<and> (\<forall>e\<in>set rest. site_of e = FindWhich \<or> site_of e = BibTool)
     \<and> (0 < i \<longrightarrow> rest = [])
     \<and> (res = None \<longrightarrow> (\<exists>out err. r0 = Completed 0 out err))
     \<and> (\<forall>rc out err. r0 = Completed rc out err \<and> rc \<noteq> 0 \<longrightarrow>
           rest = [] \<and> res = Some (CompileErr ''LaTeX compilation failed'' (Some (out @ ''\<newline>'' @ err))))"
    by (elim exE) (rule that)
  from h have t: "st_trace s' = st_trace s @ Exec FindWhich [''which'', ''pdflatex''] w # Exec Compiler c r0 # rest"
    by (rule conjunct1)
  from h have sites: "\<forall>e\<in>set rest. site_of e = FindWhich \<or> site_of e = BibTool"
    by (rule conjunct1 [OF conjunct2])
  from h have fail: "\<forall>rc out err. r0 = Completed rc out err \<and> rc \<noteq> 0 \<longrightarrow>
           rest = [] \<and> res = Some (CompileErr ''LaTeX compilation failed'' (Some (out @ ''\<newline>'' @ err)))"
    by (rule conjunct2 [OF conjunct2 [OF conjunct2 [OF conjunct2]]])
  have nf: "\<forall>e\<in>set rest. \<not> failing_pass e"
    using sites by (auto simp: failing_pass_def split: event.splits)
  have nf0: "\<not> failing_pass (Exec FindWhich [''which'', ''pdflatex''] w)"
    by (simp add: failing_pass_def)
  let ?new = "Exec FindWhich [''which'', ''pdflatex''] w # Exec Compiler c r0 # rest"
  have "case res of None \<Rightarrow> (\<forall>e\<in>set ?new. \<not> failing_pass e) | Some r \<Rightarrow> abort_inv ?new r"
  proof (cases "failing_pass (Exec Compiler c r0)")
    case True
    then obtain rc out err where r0: "r0 = Completed rc out err" "rc \<noteq> 0"
      by (auto simp: failing_pass_def split: outcome.splits)
    with fail have "rest = []" "res = Some (CompileErr ''LaTeX compilation failed'' (Some (out @ ''\<newline>'' @ err)))"
      by auto
    then show ?thesis using nf0 r0 by (simp add: abort_inv_def log_of_def)
  next
    case False
    then have all: "\<forall>e\<in>set ?new. \<not> failing_pass e" using nf nf0 by simp
    have "abort_inv ?new r" for r
    proof -
      have "last ?new \<in> set ?new" by simp
      then have "\<not> failing_pass (last ?new)" using all by blast
      moreover have "\<forall>e\<in>set (butlast ?new). \<not> failing_pass e"
        using all by (meson in_set_butlastD)
      ultimately show ?thesis unfolding abort_inv_def by blast
    qed
    then show ?thesis using all by (cases res) simp_all
  qed
  then show ?thesis using t by blast
qed

lemma compile_passes_abort:
  "compile_passes E tex bl i k s = (r, s') \<Longrightarrow>
     \<exists>new. st_trace s' = st_trace s @ new \<and> abort_inv new r"
proof (induction k arbitrary: i s)
  case 0
  then show ?case by (simp add: abort_inv_def)
next
  case (Suc k)
  obtain res s1 where p: "compile_pass E tex bl i s = (res, s1)" by force
  from compile_pass_inv [OF p] obtain pre where
    t: "st_trace s1 = st_trace s @ pre"
    and inv: "case res of None \<Rightarrow> (\<forall>e\<in>set pre. \<not> failing_pass e) | Some r \<Rightarrow> abort_inv pre r"
    by blast
  show ?case
  proof (cases res)
    case (Some r1)
    then have "r = r1" "s' = s1" using Suc.prems p by auto
    then show ?thesis using t inv Some by auto
  next
    case None
    then have rec: "compile_passes E tex bl (Suc i) k s1 = (r, s')" using Suc.prems p by auto
    from Suc.IH [OF rec] obtain new where
      n1: "st_trace s' = st_trace s1 @ new" and n2: "abort_inv new r"
      by blast
    have "abort_inv (pre @ new) r" using inv None n2 by (simp add: abort_inv_append)
    moreover have "st_trace s' = st_trace s @ (pre @ new)" using t n1 by simp
    ultimately show ?thesis by blast
  qed
qed

text \<open>
  Claim C3, as the code has it.  When a compiler pass of a call exits with a non-zero
  status, nothing is invoked after it (the call aborts at once) and the result is the
  failure ``LaTeX compilation failed'' whose log is the standard output of that one pass,
  a line break, and its standard error.  The output of the earlier passes is not kept.
\<close>

theorem compile_latex_failure_log:
  assumes run: "compile_latex E tex passes bl hw s = (r, s')"
    and tr: "st_trace s' = st_trace s @ pre @ Exec Compiler c (Completed rc out err) # post"
    and rc: "rc \<noteq> 0"
  shows "post = [] \<and> r = CompileErr ''LaTeX compilation failed'' (Some (out @ ''\<newline>'' @ err))"
proof -
  from run have "compile_passes E tex bl 0 (nat passes) s = (r, s')" by (simp add: compile_latex_def)
  from compile_passes_abort [OF this] obtain new where
      n1: "st_trace s' = st_trace s @ new" and n2: "abort_inv new r"
      by blast
  from n1 tr have new: "new = pre @ Exec Compiler c (Completed rc out err) # post" by simp
  have f: "failing_pass (Exec Compiler c (Completed rc out err))" using rc by (simp add: failing_pass_def)
  have p: "post = []"
  proof (rule ccontr)
    assume "post \<noteq> []"
    then have "butlast new = pre @ Exec Compiler c (Completed rc out err) # butlast post"
      unfolding new by (simp add: butlast_append)
    then show False using n2 f by (auto simp: abort_inv_def)
  qed
  then have "new \<noteq> []" "last new = Exec Compiler c (Completed rc out err)" unfolding new by simp_all
  then show ?thesis using n2 f p by (simp add: abort_inv_def log_of_def)
qed

theorem compile_latex_failure_log_witness:
  "compile_latex script_env tex_path 2 False False (start pass1_fails)
     = (CompileErr ''LaTeX compilation failed'' (Some ''second pass\<newline>error two''),
        snd (compile_latex script_env tex_path 2 False False (start pass1_fails)))
   \<and> st_trace (snd (compile_latex script_env tex_path 2 False False (start pass1_fails)))
     = st_trace (start pass1_fails)
       @ [Exec FindWhich [''which'', ''pdflatex''] (Completed 0 ''/usr/bin/pdflatex\<newline>'' []),
          Exec Compiler [''/usr/bin/pdflatex'', ''-interaction=nonstopmode'', tex_path]
            (Completed 0 ''first pass'' ''warning one''),
          Exec FindWhich [''which'', ''pdflatex''] (Completed 0 ''/usr/bin/pdflatex\<newline>'' [])]
       @ Exec Compiler [''/usr/bin/pdflatex'', ''-interaction=nonstopmode'', tex_path]
            (Completed 1 ''second pass'' ''error two'') # []
   \<and> (1::int) \<noteq> 0"
proof -
  let ?run = "compile_latex script_env tex_path 2 False False (start pass1_fails)"
  let ?pre = "[Exec FindWhich [''which'', ''pdflatex''] (Completed 0 ''/usr/bin/pdflatex\<newline>'' []),
          Exec Compiler [''/usr/bin/pdflatex'', ''-interaction=nonstopmode'', tex_path]
            (Completed 0 ''first pass'' ''warning one''),
          Exec FindWhich [''which'', ''pdflatex''] (Completed 0 ''/usr/bin/pdflatex\<newline>'' [])]"
  let ?c = "[''/usr/bin/pdflatex'', ''-interaction=nonstopmode'', tex_path]"
  obtain r s' where run: "?run = (r, s')" by force
  have tr: "st_trace (snd ?run) = st_trace (start pass1_fails) @ ?pre
              @ Exec Compiler ?c (Completed 1 ''second pass'' ''error two'') # []"
    by code_simp
  then have tr': "st_trace s' = st_trace (start pass1_fails) @ ?pre
              @ Exec Compiler ?c (Completed 1 ''second pass'' ''error two'') # []"
    using run by simp
  have rc: "(1::int) \<noteq> 0" by simp
  from compile_latex_failure_log [OF run tr' rc]
  have "r = CompileErr ''LaTeX compilation failed'' (Some (''second pass'' @ ''\<newline>'' @ ''error two''))"
    by simp
  then show ?thesis using run tr by simp
qed

text \<open>
  Claim C3 as stated fails: with two passes of which the second exits with status 1, the
  log holds the output of the second pass only; the output of pass 0 is neither its
  beginning nor anywhere inside it, and the log differs from the concatenation the
  specification describes.
\<close>

theorem compile_latex_log_counterexample:
  "st_trace (snd (compile_latex script_env tex_path 2 False False (start pass1_fails)))
     = [Exec FindWhich [''which'', ''pdflatex''] (Completed 0 ''/usr/bin/pdflatex\<newline>'' []),
        Exec Compiler [''/usr/bin/pdflatex'', ''-interaction=nonstopmode'', tex_path]
          (Completed 0 ''first pass'' ''warning one''),
        Exec FindWhich [''which'', ''pdflatex''] (Completed 0 ''/usr/bin/pdflatex\<newline>'' []),
        Exec Compiler [''/usr/bin/pdflatex'', ''-interaction=nonstopmode'', tex_path]
          (Completed 1 ''second pass'' ''error two'')]
   \<and> fst (compile_latex script_env tex_path 2 False False (start pass1_fails))
       = CompileErr ''LaTeX compilation failed'' (Some ''second pass\<newline>error two'')
   \<and> spec_accumulated_log (st_trace (snd (compile_latex script_env tex_path 2 False False
                                          (start pass1_fails))))
       = ''first passwarning onesecond passerror two''
   \<and> \<not> prefix ''first pass'' ''second pass\<newline>error two''
   \<and> \<not> sublist ''first pass'' ''second pass\<newline>error two''"
  by code_simp

subsection \<open>The bibliography run\<close>

lemma run_other:
  assumes "same_world s t" and "\<not> bib_shaped cmd"
    and "subprocess_run E k cmd cwd to s = (r, s')"
    and "subprocess_run (with_bib_status g E) k cmd cwd to t = (r', t')"
  shows "r' = r \<and> same_world s' t'"
  using assms by (auto simp: subprocess_run_def with_bib_status_def same_world_def split: prod.splits)

lemma run_bib:
  assumes "same_world s t"
    and "subprocess_run E k cmd cwd to s = (r, s')"
    and "subprocess_run (with_bib_status g E) k cmd cwd to t = (r', t')"
  shows "same_kind r r' \<and> same_world s' t'"
  using assms by (auto simp: subprocess_run_def with_bib_status_def same_world_def same_kind_def
      split: prod.splits outcome.splits)

lemma find_command_other:
  assumes "same_world s t" and "c \<noteq> ''document''"
    and "find_command E c s = (p, s')"
    and "find_command (with_bib_status g E) c t = (p', t')"
  shows "p' = p \<and> same_world s' t'"
proof -
  obtain r s1 where a: "subprocess_run E FindWhich [''which'', c] None 5 s = (r, s1)" by force
  obtain r' t1 where b: "subprocess_run (with_bib_status g E) FindWhich [''which'', c] None 5 t = (r', t1)" by force
  have "\<not> bib_shaped [''which'', c]" using assms(2) by (simp add: bib_shaped_def)
  from run_other [OF assms(1) this a b] have "r' = r" "same_world s1 t1" by simp_all
  then show ?thesis using assms(3,4) a b
    by (auto simp: find_command_def split: outcome.splits if_splits)
qed

lemma compile_pass_bib_status:
  assumes w: "same_world s t"
    and a: "compile_pass E tex bl i s = (res, s')"
    and b: "compile_pass (with_bib_status g E) tex bl i t = (res', t')"
  shows "res' = res \<and> same_world s' t'"
proof -
  let ?E' = "with_bib_status g E"
  obtain pc s1 where f: "find_command E ''pdflatex'' s = (pc, s1)" by force
  obtain pc' t1 where f': "find_command ?E' ''pdflatex'' t = (pc', t1)" by force
  have pc: "pc' = pc" and w1: "same_world s1 t1"
    using find_command_other [OF w _ f f'] by simp_all
  let ?cmd = "[pc, ''-interaction=nonstopmode'', tex]"
  obtain r s2 where c: "subprocess_run E Compiler ?cmd (Some (parent tex)) 30 s1 = (r, s2)" by force
  obtain r' t2 where c': "subprocess_run ?E' Compiler ?cmd (Some (parent tex)) 30 t1 = (r', t2)" by force
  have "\<not> bib_shaped ?cmd" by (simp add: bib_shaped_def)
  from run_other [OF w1 this c c'] have r: "r' = r" and w2: "same_world s2 t2" by simp_all
  have fs2: "st_fs t2 = st_fs s2" using w2 by (simp add: same_world_def)
  show ?thesis
  proof (cases "\<exists>out err. r = Completed 0 out err \<and> i = 0 \<and> path_exists (joinpath (parent tex) ''references.bib'') (st_fs s2)")
    case False
    then have "s' = s2 \<and> t' = t2 \<and> res' = res"
      using a b f f' c c' pc r fs2
      by (auto simp: compile_pass_def Let_def split: outcome.splits if_splits)
    then show ?thesis using w2 by simp
  next
    case True
    then obtain out err where r0: "r = Completed 0 out err" and i: "i = 0"
      and ex: "path_exists (joinpath (parent tex) ''references.bib'') (st_fs s2)" by blast
    let ?b = "if bl then ''biber'' else ''bibtex''"
    obtain bt s3 where fb: "find_command E ?b s2 = (bt, s3)" by force
    obtain bt' t3 where fb': "find_command ?E' ?b t2 = (bt', t3)" by force
    have "?b \<noteq> ''document''" by simp
    from find_command_other [OF w2 this fb fb'] have bt: "bt' = bt" and w3: "same_world s3 t3" by simp_all
    obtain br s4 where rb: "subprocess_run E BibTool [bt, ''document''] (Some (parent tex)) 30 s3 = (br, s4)" by force
    obtain br' t4 where rb': "subprocess_run ?E' BibTool [bt, ''document''] (Some (parent tex)) 30 t3 = (br', t4)" by force
    from run_bib [OF w3 rb rb'] have k: "same_kind br br'" and w4: "same_world s4 t4" by simp_all
    have "s' = s4 \<and> t' = t4 \<and> res' = res"
      using a b f f' c c' pc r r0 i ex fs2 fb fb' bt rb rb' k
      by (auto simp: compile_pass_def Let_def same_kind_def split: outcome.splits)
    then show ?thesis using w4 by simp
  qed
qed

lemma compile_passes_bib_status:
  "same_world s t \<Longrightarrow> compile_passes E tex bl i k s = (r, s') \<Longrightarrow>
   compile_passes (with_bib_status g E) tex bl i k t = (r', t') \<Longrightarrow> r' = r \<and> same_world s' t'"
proof (induction k arbitrary: i s t)
  case 0
  then show ?case by auto
next
  case (Suc k)
  obtain res s1 where p: "compile_pass E tex bl i s = (res, s1)" by force
  obtain res' t1 where p': "compile_pass (with_bib_status g E) tex bl i t = (res', t1)" by force
  from compile_pass_bib_status [OF Suc.prems(1) p p'] have e: "res' = res" and w: "same_world s1 t1" by simp_all
  show ?case
  proof (cases res)
    case (Some x)
    then show ?thesis using Suc.prems p p' e w by auto
  next
    case None
    then have "compile_passes E tex bl (Suc i) k s1 = (r, s')"
      "compile_passes (with_bib_status g E) tex bl (Suc i) k t1 = (r', t')"
      using Suc.prems p p' e by auto
    from Suc.IH [OF w this] show ?thesis .
  qed
qed

lemma compile_passes_later:
  "0 < i \<Longrightarrow> compile_passes E tex bl i k s = (r, s') \<Longrightarrow>
     \<exists>new. st_trace s' = st_trace s @ new \<and> (\<forall>e\<in>set new. site_of e \<noteq> BibTool)
       \<and> (0 < k \<longrightarrow> (\<exists>w c r0 rest. new = Exec FindWhich [''which'', ''pdflatex''] w # Exec Compiler c r0 # rest))"
proof (induction k arbitrary: i s)
  case 0
  then show ?case by simp
next
  case (Suc k)
  obtain res s1 where p: "compile_pass E tex bl i s = (res, s1)" by force
  from compile_pass_trace [OF p] obtain w c r0 rest where
    h: "st_trace s1 = st_trace s @ Exec FindWhich [''which'', ''pdflatex''] w # Exec Compiler c r0 # rest
     \<and> (\<forall>e\<in>set rest. site_of e = FindWhich \<or> site_of e = BibTool)
     \<and> (0 < i \<longrightarrow> rest = [])
     \<and> (res = None \<longrightarrow> (\<exists>out err. r0 = Completed 0 out err))
     \<and> (\<forall>rc out err. r0 = Completed rc out err \<and> rc \<noteq> 0 \<longrightarrow>
           rest = [] \<and> res = Some (CompileErr ''LaTeX compilation failed'' (Some (out @ ''\<newline>'' @ err))))"
    by (elim exE) (rule that)
  with Suc.prems(1) have t: "st_trace s1 = st_trace s @ [Exec FindWhich [''which'', ''pdflatex''] w, Exec Compiler c r0]"
    by simp
  show ?case
  proof (cases res)
    case (Some x)
    then have "s' = s1" using Suc.prems p by auto
    then show ?thesis using t by simp
  next
    case None
    then have "compile_passes E tex bl (Suc i) k s1 = (r, s')" using Suc.prems p by auto
    from Suc.IH [OF _ this] obtain new where "st_trace s' = st_trace s1 @ new" "\<forall>e\<in>set new. site_of e \<noteq> BibTool"
      by auto
    then show ?thesis using t by simp
  qed
qed

text \<open>
  A pass 0 that exits with status 0 and leaves the bibliography file in the workspace:
  the events of the call are the lookup of the compiler, pass 0, the lookup of the
  bibliography tool, one run of that tool, and a rest without any run of it.
\<close>

lemma bibliography_after_pass0:
  assumes passes: "2 \<le> passes"
    and which: "find_command E ''pdflatex'' s = (pc, s1)"
    and pass0: "subprocess_run E Compiler [pc, ''-interaction=nonstopmode'', tex_file]
                  (Some (parent tex_file)) 30 s1 = (Completed 0 out err, s2)"
    and bib: "path_exists (joinpath (parent tex_file) ''references.bib'') (st_fs s2)"
    and run: "compile_latex E tex_file passes use_biblatex hw s = (r, s')"
  shows "(\<exists>w0 w1 bt bo rest.
            events_since s s' =
              [Exec FindWhich [''which'', ''pdflatex''] w0,
               Exec Compiler [pc, ''-interaction=nonstopmode'', tex_file] (Completed 0 out err),
               Exec FindWhich [''which'', if use_biblatex then ''biber'' else ''bibtex''] w1,
               Exec BibTool [bt, ''document''] bo] @ rest
          \<and> (\<forall>e\<in>set rest. site_of e \<noteq> BibTool)
          \<and> ((\<exists>brc bout berr. bo = Completed brc bout berr) \<longrightarrow>
               (\<exists>w c r1 rest'. rest = Exec FindWhich [''which'', ''pdflatex''] w
                                        # Exec Compiler c r1 # rest')))
       \<and> count_site BibTool (events_since s s') = 1
       \<and> fst (compile_latex (with_bib_status g E) tex_file passes use_biblatex hw s) = r"
proof -
  have "2 \<le> nat passes" using passes by simp
  then have "nat passes = Suc (Suc (nat passes - 2))" by simp
  then obtain k where k: "nat passes = Suc (Suc k)" ..
  let ?b = "if use_biblatex then ''biber'' else ''bibtex''"
  obtain bt s3 where fb: "find_command E ?b s2 = (bt, s3)" by force
  obtain bo s4 where rb: "subprocess_run E BibTool [bt, ''document''] (Some (parent tex_file)) 30 s3 = (bo, s4)" by force
  from find_command_trace [OF which] obtain w0 where
    t1: "st_trace s1 = st_trace s @ [Exec FindWhich [''which'', ''pdflatex''] w0]" by blast
  from subprocess_run_trace [OF pass0] have
    t2: "st_trace s2 = st_trace s1 @ [Exec Compiler [pc, ''-interaction=nonstopmode'', tex_file] (Completed 0 out err)]" .
  from find_command_trace [OF fb] obtain w1 where
    t3: "st_trace s3 = st_trace s2 @ [Exec FindWhich [''which'', ?b] w1]" by blast
  from subprocess_run_trace [OF rb] have
    t4: "st_trace s4 = st_trace s3 @ [Exec BibTool [bt, ''document''] bo]" .
  let ?head = "[Exec FindWhich [''which'', ''pdflatex''] w0,
               Exec Compiler [pc, ''-interaction=nonstopmode'', tex_file] (Completed 0 out err),
               Exec FindWhich [''which'', ?b] w1,
               Exec BibTool [bt, ''document''] bo]"
  have t: "st_trace s4 = st_trace s @ ?head" using t1 t2 t3 t4 by simp
  have p0: "compile_pass E tex_file use_biblatex 0 s =
      (case bo of Completed brc bout berr \<Rightarrow> None
               | TimeoutExpired \<Rightarrow> Some (CompileErr ''LaTeX compilation timed out'' None)
               | Raised m \<Rightarrow> Some (CompileErr (''Compilation error: '' @ m) None), s4)"
    using which pass0 bib fb rb by (simp add: compile_pass_def Let_def split: outcome.splits)
  from run have cp: "compile_passes E tex_file use_biblatex 0 (Suc (Suc k)) s = (r, s')"
    by (simp add: compile_latex_def k)
  have shape: "\<exists>rest. st_trace s' = st_trace s4 @ rest
          \<and> (\<forall>e\<in>set rest. site_of e \<noteq> BibTool)
          \<and> ((\<exists>brc bout berr. bo = Completed brc bout berr) \<longrightarrow>
               (\<exists>w c r1 rest'. rest = Exec FindWhich [''which'', ''pdflatex''] w
                                        # Exec Compiler c r1 # rest'))"
  proof (cases "\<exists>brc bout berr. bo = Completed brc bout berr")
    case True
    then have "compile_passes E tex_file use_biblatex (Suc 0) (Suc k) s4 = (r, s')"
      using cp p0 by auto
    from compile_passes_later [OF _ this] True show ?thesis by auto
  next
    case False
    then have "s' = s4" using cp p0 by (cases bo) auto
    then show ?thesis using False by simp
  qed
  then obtain rest where
    r1: "st_trace s' = st_trace s4 @ rest"
    and r2: "\<forall>e\<in>set rest. site_of e \<noteq> BibTool"
    and r3: "(\<exists>brc bout berr. bo = Completed brc bout berr) \<longrightarrow>
               (\<exists>w c r1 rest'. rest = Exec FindWhich [''which'', ''pdflatex''] w
                                        # Exec Compiler c r1 # rest')"
    by (elim exE conjE)
  have ev: "events_since s s' = ?head @ rest"
    using r1 t by (simp add: events_since_def)
  have cnt: "count_site BibTool (events_since s s') = 1"
    unfolding ev using r2 by (simp add: count_site_def filter_empty_conv)
  obtain r' t' where run': "compile_passes (with_bib_status g E) tex_file use_biblatex 0 (nat passes) s = (r', t')"
    by force
  have "same_world s s" by (simp add: same_world_def)
  from compile_passes_bib_status [OF this _ run'] run have "r' = r"
    by (simp add: compile_latex_def)
  then have ni: "fst (compile_latex (with_bib_status g E) tex_file passes use_biblatex hw s) = r"
    using run' by (simp add: compile_latex_def)
  show ?thesis using ev r2 r3 cnt ni by blast
qed

text \<open>
  A pass 0 that exits with a non-zero status: the call is over after it.
\<close>

lemma no_bibliography_after_failure:
  assumes passes: "1 \<le> passes"
    and which: "find_command E ''pdflatex'' s = (pc, s1)"
    and pass0: "subprocess_run E Compiler [pc, ''-interaction=nonstopmode'', tex_file]
                  (Some (parent tex_file)) 30 s1 = (Completed rc out err, s2)"
    and rc: "rc \<noteq> 0"
    and run: "compile_latex E tex_file passes use_biblatex hw s = (r, s')"
  shows "(\<exists>w0. events_since s s' =
              [Exec FindWhich [''which'', ''pdflatex''] w0,
               Exec Compiler [pc, ''-interaction=nonstopmode'', tex_file] (Completed rc out err)])
       \<and> count_site BibTool (events_since s s') = 0
       \<and> r = CompileErr ''LaTeX compilation failed'' (Some (out @ ''\<newline>'' @ err))"
proof -
  have "nat passes = Suc (nat passes - 1)" using passes by simp
  then obtain k where k: "nat passes = Suc k" ..
  from find_command_trace [OF which] obtain w0 where
    t1: "st_trace s1 = st_trace s @ [Exec FindWhich [''which'', ''pdflatex''] w0]" by blast
  from subprocess_run_trace [OF pass0] have
    t2: "st_trace s2 = st_trace s1 @ [Exec Compiler [pc, ''-interaction=nonstopmode'', tex_file] (Completed rc out err)]" .
  have p0: "compile_pass E tex_file use_biblatex 0 s =
      (Some (CompileErr ''LaTeX compilation failed'' (Some (out @ ''\<newline>'' @ err))), s2)"
    using which pass0 rc by (simp add: compile_pass_def Let_def)
  from run have "compile_passes E tex_file use_biblatex 0 (Suc k) s = (r, s')"
    by (simp add: compile_latex_def k)
  then have res: "r = CompileErr ''LaTeX compilation failed'' (Some (out @ ''\<newline>'' @ err))"
    and s': "s' = s2"
    using p0 by simp_all
  have ev: "events_since s s' =
              [Exec FindWhich [''which'', ''pdflatex''] w0,
               Exec Compiler [pc, ''-interaction=nonstopmode'', tex_file] (Completed rc out err)]"
    using s' t1 t2 by (simp add: events_since_def)
  have cnt: "count_site BibTool (events_since s s') = 0"
    unfolding ev by (simp add: count_site_def)
  show ?thesis using ev cnt res by blast
qed

text \<open>
  Claim C2, as the code has it.  Let the call ask for at least two passes and let pass 0
  complete with exit status \<open>rc\<close>.  When \<open>rc\<close> is 0 and the bibliography file exists in
  the workspace when pass 0 is over, the events of the call are: the lookup of the
  compiler, pass 0, the lookup of the bibliography tool (biber or bibtex, as chosen), one
  run of that tool, and a rest without any run of the bibliography tool; so the tool runs
  exactly once, right after pass 0, and when that run completes, whatever its status, the
  rest begins with pass 1.  When \<open>rc\<close> is not 0, pass 0 is the last event of the call,
  the bibliography tool is not invoked at all, and the result is the failure of pass 0.
  In every case the result of the call is the same in the world in which the
  bibliography tool reports any other exit status \<open>g rc\<close>.
\<close>

theorem compile_latex_bibliography_once:
  assumes passes: "2 \<le> passes"
    and which: "find_command E ''pdflatex'' s = (pc, s1)"
    and pass0: "subprocess_run E Compiler [pc, ''-interaction=nonstopmode'', tex_file]
                  (Some (parent tex_file)) 30 s1 = (Completed rc out err, s2)"
    and run: "compile_latex E tex_file passes use_biblatex hw s = (r, s')"
  shows "(rc = 0 \<and> path_exists (joinpath (parent tex_file) ''references.bib'') (st_fs s2) \<longrightarrow>
            (\<exists>w0 w1 bt bo rest.
                events_since s s' =
                  [Exec FindWhich [''which'', ''pdflatex''] w0,
                   Exec Compiler [pc, ''-interaction=nonstopmode'', tex_file] (Completed 0 out err),
                   Exec FindWhich [''which'', if use_biblatex then ''biber'' else ''bibtex''] w1,
                   Exec BibTool [bt, ''document''] bo] @ rest
              \<and> (\<forall>e\<in>set rest. site_of e \<noteq> BibTool)
              \<and> ((\<exists>brc bout berr. bo = Completed brc bout berr) \<longrightarrow>
                   (\<exists>w c r1 rest'. rest = Exec FindWhich [''which'', ''pdflatex''] w
                                            # Exec Compiler c r1 # rest')))
            \<and> count_site BibTool (events_since s s') = 1)
       \<and> (rc \<noteq> 0 \<longrightarrow>
            (\<exists>w0. events_since s s' =
               [Exec FindWhich [''which'', ''pdflatex''] w0,
                Exec Compiler [pc, ''-interaction=nonstopmode'', tex_file] (Completed rc out err)])
            \<and> count_site BibTool (events_since s s') = 0
            \<and> r = CompileErr ''LaTeX compilation failed'' (Some (out @ ''\<newline>'' @ err)))
       \<and> fst (compile_latex (with_bib_status g E) tex_file passes use_biblatex hw s) = r"
proof (intro conjI impI)
  assume a: "rc = 0 \<and> path_exists (joinpath (parent tex_file) ''references.bib'') (st_fs s2)"
  then have p0: "subprocess_run E Compiler [pc, ''-interaction=nonstopmode'', tex_file]
                  (Some (parent tex_file)) 30 s1 = (Completed 0 out err, s2)"
    using pass0 by simp
  from a have bib: "path_exists (joinpath (parent tex_file) ''references.bib'') (st_fs s2)" ..
  note h = bibliography_after_pass0 [OF passes which p0 bib run]
  from h show "\<exists>w0 w1 bt bo rest.
                events_since s s' =
                  [Exec FindWhich [''which'', ''pdflatex''] w0,
                   Exec Compiler [pc, ''-interaction=nonstopmode'', tex_file] (Completed 0 out err),
                   Exec FindWhich [''which'', if use_biblatex then ''biber'' else ''bibtex''] w1,
                   Exec BibTool [bt, ''document''] bo] @ rest
              \<and> (\<forall>e\<in>set rest. site_of e \<noteq> BibTool)
              \<and> ((\<exists>brc bout berr. bo = Completed brc bout berr) \<longrightarrow>
                   (\<exists>w c r1 rest'. rest = Exec FindWhich [''which'', ''pdflatex''] w
                                            # Exec Compiler c r1 # rest'))"
    by (rule conjunct1)
  from h show "count_site BibTool (events_since s s') = 1"
    by (rule conjunct1 [OF conjunct2])
next
  assume rc: "rc \<noteq> 0"
  have one: "1 \<le> passes" using passes by simp
  note h = no_bibliography_after_failure [OF one which pass0 rc run]
  from h show "\<exists>w0. events_since s s' =
               [Exec FindWhich [''which'', ''pdflatex''] w0,
                Exec Compiler [pc, ''-interaction=nonstopmode'', tex_file] (Completed rc out err)]"
    by (rule conjunct1)
  from h show "count_site BibTool (events_since s s') = 0"
    by (rule conjunct1 [OF conjunct2])
  from h show "r = CompileErr ''LaTeX compilation failed'' (Some (out @ ''\<newline>'' @ err))"
    by (rule conjunct2 [OF conjunct2])
next
  obtain r' t' where run': "compile_passes (with_bib_status g E) tex_file use_biblatex 0 (nat passes) s = (r', t')"
    by force
  have "same_world s s" by (simp add: same_world_def)
  from compile_passes_bib_status [OF this _ run'] run have "r' = r"
    by (simp add: compile_latex_def)
  then show "fst (compile_latex (with_bib_status g E) tex_file passes use_biblatex hw s) = r"
    using run' by (simp add: compile_latex_def)
qed

theorem compile_latex_bibliography_once_witness:
  "(2::int) \<le> 2
   \<and> find_command script_env ''pdflatex'' (staged two_passes)
       = (''/usr/bin/pdflatex'', snd (find_command script_env ''pdflatex'' (staged two_passes)))
   \<and> subprocess_run script_env Compiler
         [''/usr/bin/pdflatex'', ''-interaction=nonstopmode'', tex_path] (Some (parent tex_path)) 30
         (snd (find_command script_env ''pdflatex'' (staged two_passes)))
       = (Completed 0 ''first pass'' [],
          snd (subprocess_run script_env Compiler
                 [''/usr/bin/pdflatex'', ''-interaction=nonstopmode'', tex_path]
                 (Some (parent tex_path)) 30
                 (snd (find_command script_env ''pdflatex'' (staged two_passes)))))
   \<and> path_exists (joinpath (parent tex_path) ''references.bib'')
         (st_fs (snd (subprocess_run script_env Compiler
                 [''/usr/bin/pdflatex'', ''-interaction=nonstopmode'', tex_path]
                 (Some (parent tex_path)) 30
                 (snd (find_command script_env ''pdflatex'' (staged two_passes))))))
   \<and> fst (compile_latex script_env tex_path 2 False False (staged two_passes)) = CompileOk
   \<and> count_site BibTool (events_since (staged two_passes)
         (snd (compile_latex script_env tex_path 2 False False (staged two_passes)))) = 1
   \<and> fst (compile_latex (with_bib_status status_zero script_env) tex_path 2 False False
            (staged two_passes)) = CompileOk
   \<and> find_command script_env ''pdflatex'' (staged pass0_fails)
       = (''/usr/bin/pdflatex'', snd (find_command script_env ''pdflatex'' (staged pass0_fails)))
   \<and> subprocess_run script_env Compiler
         [''/usr/bin/pdflatex'', ''-interaction=nonstopmode'', tex_path] (Some (parent tex_path)) 30
         (snd (find_command script_env ''pdflatex'' (staged pass0_fails)))
       = (Completed 1 ''! Undefined control sequence.'' [],
          snd (subprocess_run script_env Compiler
                 [''/usr/bin/pdflatex'', ''-interaction=nonstopmode'', tex_path]
                 (Some (parent tex_path)) 30
                 (snd (find_command script_env ''pdflatex'' (staged pass0_fails)))))
   \<and> (1::int) \<noteq> 0
   \<and> count_site BibTool (events_since (staged pass0_fails)
         (snd (compile_latex script_env tex_path 2 False False (staged pass0_fails)))) = 0
   \<and> fst (compile_latex script_env tex_path 2 False False (staged pass0_fails))
       = CompileErr ''LaTeX compilation failed'' (Some (''! Undefined control sequence.'' @ ''\<newline>'' @ []))"
proof -
  let ?c = "[''/usr/bin/pdflatex'', ''-interaction=nonstopmode'', tex_path]"
  let ?s = "staged two_passes"
  let ?s1 = "snd (find_command script_env ''pdflatex'' ?s)"
  let ?s2 = "snd (subprocess_run script_env Compiler ?c (Some (parent tex_path)) 30 ?s1)"
  let ?run = "compile_latex script_env tex_path 2 False False ?s"
  let ?t = "staged pass0_fails"
  let ?t1 = "snd (find_command script_env ''pdflatex'' ?t)"
  let ?t2 = "snd (subprocess_run script_env Compiler ?c (Some (parent tex_path)) 30 ?t1)"
  let ?bad = "compile_latex script_env tex_path 2 False False ?t"
  have h1: "(2::int) \<le> 2" by simp
  have h2: "find_command script_env ''pdflatex'' ?s = (''/usr/bin/pdflatex'', ?s1)"
    by code_simp
  have h3: "subprocess_run script_env Compiler ?c (Some (parent tex_path)) 30 ?s1
              = (Completed 0 ''first pass'' [], ?s2)"
    by code_simp
  have h4: "path_exists (joinpath (parent tex_path) ''references.bib'') (st_fs ?s2)"
    by code_simp
  have h5: "?run = (CompileOk, snd ?run)"
    by code_simp
  have f: "fst ?run = CompileOk" using h5 by (metis fst_conv)
  note w = compile_latex_bibliography_once [OF h1 h2 h3 h5, of status_zero]
  have pre: "(0::int) = 0 \<and> path_exists (joinpath (parent tex_path) ''references.bib'') (st_fs ?s2)"
    using h4 by simp
  have c1: "count_site BibTool (events_since ?s (snd ?run)) = 1"
    using mp [OF conjunct1 [OF w] pre] by (rule conjunct2)
  have c2: "fst (compile_latex (with_bib_status status_zero script_env) tex_path 2 False False ?s)
              = CompileOk"
    using w by (rule conjunct2 [OF conjunct2])
  have k2: "find_command script_env ''pdflatex'' ?t = (''/usr/bin/pdflatex'', ?t1)"
    by code_simp
  have k3: "subprocess_run script_env Compiler ?c (Some (parent tex_path)) 30 ?t1
              = (Completed 1 ''! Undefined control sequence.'' [], ?t2)"
    by code_simp
  have k5: "?bad = (fst ?bad, snd ?bad)" by simp
  have nz: "(1::int) \<noteq> 0" by simp
  note v = compile_latex_bibliography_once [OF h1 k2 k3 k5, of status_zero]
  note v' = mp [OF conjunct1 [OF conjunct2 [OF v]] nz]
  have d1: "count_site BibTool (events_since ?t (snd ?bad)) = 0"
    using v' by (rule conjunct1 [OF conjunct2])
  have d2: "fst ?bad = CompileErr ''LaTeX compilation failed''
                     (Some (''! Undefined control sequence.'' @ ''\<newline>'' @ []))"
    using v' by (rule conjunct2 [OF conjunct2])
  show ?thesis by (intro conjI h1 h2 h3 h4 f c1 c2 k2 k3 nz d1 d2)
qed

text \<open>
  Claim C2 as stated fails: with the bibliography file present and two passes asked for,
  a pass 0 that exits with status 1 ends the call, and the bibliography tool is not
  invoked at all.
\<close>

theorem compile_latex_bibliography_counterexample:
  "path_exists bib_path (st_fs (staged pass0_fails))
   \<and> bib_path = joinpath (parent tex_path) ''references.bib''
   \<and> fst (compile_latex script_env tex_path 2 False False (staged pass0_fails))
       = CompileErr ''LaTeX compilation failed'' (Some ''! Undefined control sequence.\<newline>'')
   \<and> count_site BibTool (st_trace (snd (compile_latex script_env tex_path 2 False False
                                             (staged pass0_fails)))) = 0"
  by code_simp

section \<open>RasterConverter\<close>

lemma find_command_quiet:
  assumes "find_command E c s = (p, s')"
  shows "\<exists>e. st_trace s' = st_trace s @ [e] \<and> quiet e"
proof -
  from find_command_trace [OF assms] obtain r where
    "st_trace s' = st_trace s @ [Exec FindWhich [''which'', c] r]" by blast
  then show ?thesis by (simp add: quiet_def trim_probe_def)
qed

lemma check_command_trace:
  assumes "check_command E c s = (b, s')"
  shows "\<exists>r rest. st_trace s' = st_trace s @ Exec CheckWhich [''which'', c] r # rest
           \<and> (rest = [] \<or> (\<exists>r2. rest = [Exec CheckVersion [c, ''--version''] r2]))"
proof -
  obtain r s1 where a: "subprocess_run E CheckWhich [''which'', c] None 5 s = (r, s1)" by force
  obtain r2 s2 where b: "subprocess_run E CheckVersion [c, ''--version''] None 5 s1 = (r2, s2)" by force
  note t1 = subprocess_run_trace [OF a] and t2 = subprocess_run_trace [OF b]
  have "s' = s1 \<or> s' = s2" using assms a b
    by (auto simp: check_command_def split: outcome.splits if_splits)
  then show ?thesis using t1 t2 by auto
qed

lemma check_command_quiet:
  assumes "check_command E c s = (b, s')" and "c \<noteq> ''magick''"
  shows "\<exists>new. st_trace s' = st_trace s @ new \<and> (\<forall>e\<in>set new. quiet e)"
proof -
  from check_command_trace [OF assms(1)] obtain r rest where
    h: "st_trace s' = st_trace s @ Exec CheckWhich [''which'', c] r # rest
           \<and> (rest = [] \<or> (\<exists>r2. rest = [Exec CheckVersion [c, ''--version''] r2]))"
    by (elim exE) (rule that)
  then have "\<forall>e\<in>set (Exec CheckWhich [''which'', c] r # rest). quiet e"
    using assms(2) by (auto simp: quiet_def trim_probe_def)
  then show ?thesis using h by blast
qed

lemma trim_png_inplace_trace:
  assumes "trim_png_inplace E png s = (b, s')"
  shows "\<exists>e rest. st_trace s' = st_trace s @ e # rest \<and> trim_probe e
           \<and> (\<forall>x\<in>set rest. trim_tail x)"
proof -
  obtain m s1 where c1: "check_command E ''magick'' s = (m, s1)" by force
  from check_command_trace [OF c1] obtain r rest1 where
    h1: "st_trace s1 = st_trace s @ Exec CheckWhich [''which'', ''magick''] r # rest1
           \<and> (rest1 = [] \<or> (\<exists>r2. rest1 = [Exec CheckVersion [''magick'', ''--version''] r2]))"
    by (elim exE) (rule that)
  have p: "trim_probe (Exec CheckWhich [''which'', ''magick''] r)" by (simp add: trim_probe_def)
  have q1: "\<forall>x\<in>set rest1. trim_tail x" using h1 by (auto simp: trim_tail_def)
  have ext: "\<exists>more. st_trace s' = st_trace s1 @ more \<and> (\<forall>x\<in>set more. trim_tail x)"
  proof (cases m)
    case True
    obtain tc s2 where f: "find_command E ''magick'' s1 = (tc, s2)" by force
    obtain r3 s3 where t: "subprocess_run E Trim [tc, png, ''-trim'', ''+repage'', png] None 20 s2 = (r3, s3)" by force
    have "s' = s3" using assms c1 True f t
      by (auto simp: trim_png_inplace_def split: outcome.splits)
    then show ?thesis using find_command_trace [OF f] subprocess_run_trace [OF t]
      by (auto simp: trim_tail_def)
  next
    case False
    obtain c s2 where c2: "check_command E ''convert'' s1 = (c, s2)" by force
    from check_command_trace [OF c2] obtain r' rest2 where
      h2: "st_trace s2 = st_trace s1 @ Exec CheckWhich [''which'', ''convert''] r' # rest2
           \<and> (rest2 = [] \<or> (\<exists>r2. rest2 = [Exec CheckVersion [''convert'', ''--version''] r2]))"
      by (elim exE) (rule that)
    show ?thesis
    proof (cases c)
      case True
      obtain tc s3 where f: "find_command E ''convert'' s2 = (tc, s3)" by force
      obtain r3 s4 where t: "subprocess_run E Trim [tc, png, ''-trim'', ''+repage'', png] None 20 s3 = (r3, s4)" by force
      have "s' = s4" using assms c1 False c2 True f t
        by (auto simp: trim_png_inplace_def split: outcome.splits)
      then show ?thesis using h2 find_command_trace [OF f] subprocess_run_trace [OF t]
        by (auto simp: trim_tail_def)
    next
      case c: False
      have "s' = s2" using assms c1 False c2 c by (auto simp: trim_png_inplace_def)
      then show ?thesis using h2 by (auto simp: trim_tail_def)
    qed
  qed
  then obtain more where "st_trace s' = st_trace s1 @ more" "\<forall>x\<in>set more. trim_tail x" by blast
  then have "st_trace s' = st_trace s @ Exec CheckWhich [''which'', ''magick''] r # (rest1 @ more)"
    "\<forall>x\<in>set (rest1 @ more). trim_tail x"
    using h1 q1 by auto
  then show ?thesis using p by blast
qed

lemma crop_step_trace:
  assumes "crop_step E pdf crop s = (res, s1)"
  shows "\<exists>Q C. st_trace s1 = st_trace s @ Q @ C \<and> (\<forall>e\<in>set Q. quiet e)
     \<and> ((C = [] \<and> res = Inr pdf)
        \<or> (\<exists>c r. C = [Exec Crop c r] \<and> crop
              \<and> (if is_completed r
                  then res = Inr pdf \<or> res = Inr (joinpath (parent pdf) ''document-cropped.pdf'')
                  else res = Inl (handled r))))"
proof (cases crop)
  case False
  then have "s1 = s" "res = Inr pdf" using assms by (auto simp: crop_step_def)
  then show ?thesis by (intro exI [of _ "[]"]) simp
next
  case True
  obtain av sa where c: "check_command E ''pdfcrop'' s = (av, sa)" by force
  from check_command_quiet [OF c] obtain Q1 where
    q1: "st_trace sa = st_trace s @ Q1" "\<forall>e\<in>set Q1. quiet e" by auto
  show ?thesis
  proof (cases av)
    case False
    then have "s1 = sa" "res = Inr pdf" using assms True c by (auto simp: crop_step_def)
    then show ?thesis using q1 by (intro exI [of _ Q1] exI [of _ "[]"]) simp
  next
    case av: True
    let ?cropped = "joinpath (parent pdf) ''document-cropped.pdf''"
    obtain pc sb where f: "find_command E ''pdfcrop'' sa = (pc, sb)" by force
    obtain r sc where run: "subprocess_run E Crop [pc, ''--margins'', ''3'', pdf, ?cropped] None 30 sb = (r, sc)"
      by force
    from find_command_quiet [OF f] obtain e where
      q2: "st_trace sb = st_trace sa @ [e]" "quiet e" by auto
    note t = subprocess_run_trace [OF run]
    have res: "s1 = sc \<and> (if is_completed r
                  then res = Inr pdf \<or> res = Inr ?cropped
                  else res = Inl (handled r))"
      using assms True c av f run
      by (auto simp: crop_step_def Let_def is_completed_def handled_def split: outcome.splits)
    have "st_trace s1 = st_trace s @ (Q1 @ [e]) @ [Exec Crop [pc, ''--margins'', ''3'', pdf, ?cropped] r]"
      using res q1 q2 t by simp
    moreover have "\<forall>x\<in>set (Q1 @ [e]). quiet x" using q1 q2 by simp
    ultimately show ?thesis using res True
      by (intro exI [of _ "Q1 @ [e]"] exI [of _ "[Exec Crop [pc, ''--margins'', ''3'', pdf, ?cropped] r]"])
         auto
  qed
qed

lemma fallback_step_trace:
  assumes "fallback_step E src png dpi crop s = (res, s')"
  shows "\<exists>Q c r T. st_trace s' = st_trace s @ Q @ Exec Fallback c r # T \<and> (\<forall>e\<in>set Q. quiet e)
     \<and> (if exit_zero r
         then res = ConvertOk
              \<and> (if crop then (\<exists>e rest. T = e # rest \<and> trim_probe e \<and> (\<forall>x\<in>set rest. trim_tail x))
                  else T = [])
         else T = [] \<and> res = (if is_completed r then failed_to_convert (stderr_of r) else handled r))"
proof -
  obtain cv sa where c: "check_command E ''convert'' s = (cv, sa)" by force
  from check_command_quiet [OF c] obtain Q1 where
    q1: "st_trace sa = st_trace s @ Q1" "\<forall>e\<in>set Q1. quiet e" by auto
  obtain cc sb where f: "find_command E (if cv then ''convert'' else ''magick'') sa = (cc, sb)" by force
  from find_command_quiet [OF f] obtain e where
    q2: "st_trace sb = st_trace sa @ [e]" "quiet e" by auto
  let ?cmd = "[cc, ''-density'', str_int dpi, src, png]"
  obtain r sc where run: "subprocess_run E Fallback ?cmd None 30 sb = (r, sc)" by force
  note t = subprocess_run_trace [OF run]
  have pre: "st_trace sc = st_trace s @ (Q1 @ [e]) @ Exec Fallback ?cmd r # []"
    using q1 q2 t by simp
  have qq: "\<forall>x\<in>set (Q1 @ [e]). quiet x" using q1 q2 by simp
  have step: "fallback_step E src png dpi crop s =
     (case r of
           TimeoutExpired \<Rightarrow> (conversion_timed_out, sc)
         | Raised m \<Rightarrow> (conversion_error m, sc)
         | Completed rc out err \<Rightarrow>
             if rc = 0
             then (if crop
                   then (case trim_png_inplace E png sc of (t, s4) \<Rightarrow> (ConvertOk, s4))
                   else (ConvertOk, sc))
             else (failed_to_convert err, sc))"
    using c f run by (simp add: fallback_step_def failed_to_convert_def split: outcome.splits)
  show ?thesis
  proof (cases "exit_zero r \<and> crop")
    case True
    obtain b s4 where tr: "trim_png_inplace E png sc = (b, s4)" by force
    from True have "res = ConvertOk" "s' = s4" using assms step tr
      by (auto simp: exit_zero_def split: outcome.splits)
    moreover from trim_png_inplace_trace [OF tr] obtain e' rest where
      "st_trace s4 = st_trace sc @ e' # rest" "trim_probe e'" "\<forall>x\<in>set rest. trim_tail x"
      by blast
    ultimately have "st_trace s' = st_trace s @ (Q1 @ [e]) @ Exec Fallback ?cmd r # (e' # rest)"
      "res = ConvertOk" "trim_probe e'" "\<forall>x\<in>set rest. trim_tail x"
      using pre by simp_all
    then show ?thesis using True qq
      by (intro exI [of _ "Q1 @ [e]"] exI [of _ ?cmd] exI [of _ r] exI [of _ "e' # rest"]) simp
  next
    case False
    then have "s' = sc \<and> (if exit_zero r then res = ConvertOk
         else res = (if is_completed r then failed_to_convert (stderr_of r) else handled r))"
      using assms step
      by (auto simp: exit_zero_def is_completed_def stderr_of_def handled_def split: outcome.splits if_splits)
    then show ?thesis using False pre qq
      by (intro exI [of _ "Q1 @ [e]"] exI [of _ ?cmd] exI [of _ r] exI [of _ "[]"]) auto
  qed
qed

lemma events_since_append:
  "st_trace s' = st_trace s @ new \<Longrightarrow> events_since s s' = new"
  by (simp add: events_since_def)

lemma quiet_before_raster: "quiet e \<Longrightarrow> before_raster e"
  by (simp add: quiet_def before_raster_def)

lemma crop_before_raster: "before_raster (Exec Crop c r)"
  by (simp add: before_raster_def trim_probe_def)

lemma pdf_to_png_cases_raw:
  assumes run: "pdf_to_png E pdf png dpi crop s = (res, s')"
  obtains
    (stopped) P where
      "events_since s s' = P"
      "\<forall>e\<in>set P. before_raster e"
      "\<exists>m. res = ConvertErr m"
      "\<forall>e\<in>set P. site_of e = Crop \<and> \<not> is_completed (outcome_of e) \<longrightarrow> res = handled (outcome_of e)"
  | (primary_ok) P bin src stem r T where
      "events_since s s' = P @ Exec Raster (raster_argv bin dpi src stem) r # T"
      "\<forall>e\<in>set P. before_raster e \<and> (site_of e = Crop \<longrightarrow> is_completed (outcome_of e))"
      "src = pdf \<or> (src = joinpath (parent pdf) ''document-cropped.pdf'' \<and> crop
                       \<and> (\<exists>e\<in>set P. site_of e = Crop))"
      "exit_zero r" "res = ConvertOk"
      "if crop \<and> \<not> endswith src ''document-cropped.pdf''
       then \<exists>e rest. T = e # rest \<and> trim_probe e \<and> (\<forall>x\<in>set rest. trim_tail x)
       else T = []"
  | (primary_raised) P bin src stem r where
      "events_since s s' = P @ [Exec Raster (raster_argv bin dpi src stem) r]"
      "\<forall>e\<in>set P. before_raster e \<and> (site_of e = Crop \<longrightarrow> is_completed (outcome_of e))"
      "\<not> is_completed r" "res = handled r"
  | (fallback) P bin src stem r Q c r2 T where
      "events_since s s' = P @ Exec Raster (raster_argv bin dpi src stem) r # Q @ Exec Fallback c r2 # T"
      "\<forall>e\<in>set P. before_raster e \<and> (site_of e = Crop \<longrightarrow> is_completed (outcome_of e))"
      "is_completed r" "\<not> exit_zero r"
      "\<forall>e\<in>set Q. quiet e"
      "if exit_zero r2
       then res = ConvertOk
            \<and> (if crop then (\<exists>e rest. T = e # rest \<and> trim_probe e \<and> (\<forall>x\<in>set rest. trim_tail x))
                else T = [])
       else T = [] \<and> res = (if is_completed r2 then failed_to_convert (stderr_of r2) else handled r2)"
proof -
  obtain cr s1 where cs: "crop_step E pdf crop s = (cr, s1)" by force
  from crop_step_trace [OF cs] obtain Q C where
    h: "st_trace s1 = st_trace s @ Q @ C \<and> (\<forall>e\<in>set Q. quiet e)
     \<and> ((C = [] \<and> cr = Inr pdf)
        \<or> (\<exists>c r. C = [Exec Crop c r] \<and> crop
              \<and> (if is_completed r
                  then cr = Inr pdf \<or> cr = Inr (joinpath (parent pdf) ''document-cropped.pdf'')
                  else cr = Inl (handled r))))"
    by (elim exE) (rule that)
  then have t1: "st_trace s1 = st_trace s @ Q @ C" and q: "\<forall>e\<in>set Q. quiet e"
    and c: "(C = [] \<and> cr = Inr pdf)
        \<or> (\<exists>c r. C = [Exec Crop c r] \<and> crop
              \<and> (if is_completed r
                  then cr = Inr pdf \<or> cr = Inr (joinpath (parent pdf) ''document-cropped.pdf'')
                  else cr = Inl (handled r)))"
    by simp_all
  have bq: "\<forall>e\<in>set (Q @ C). before_raster e"
    using q c by (auto simp: quiet_before_raster crop_before_raster)
  have sitesQ: "\<forall>e\<in>set Q. site_of e \<noteq> Crop" using q by (simp add: quiet_def)
  show ?thesis
  proof (cases cr)
    case (Inl r0)
    then have "res = r0" "s' = s1" using run cs by (auto simp: pdf_to_png_def)
    moreover from Inl c obtain cc r where C: "C = [Exec Crop cc r]" "\<not> is_completed r" "r0 = handled r"
      by (auto split: if_splits)
    ultimately have a: "events_since s s' = Q @ C" and b: "res = handled r"
      using t1 by (simp_all add: events_since_append)
    have "\<exists>m. res = ConvertErr m" using b C(2)
      by (auto simp: handled_def is_completed_def conversion_timed_out_def conversion_error_def
          split: outcome.splits)
    moreover have "\<forall>e\<in>set (Q @ C). site_of e = Crop \<and> \<not> is_completed (outcome_of e)
                      \<longrightarrow> res = handled (outcome_of e)"
      using sitesQ C b by auto
    ultimately show ?thesis using a bq by (intro stopped)
  next
    case (Inr src)
    then have src: "src = pdf \<or> (src = joinpath (parent pdf) ''document-cropped.pdf'' \<and> crop
                       \<and> (\<exists>e\<in>set (Q @ C). site_of e = Crop))"
      using c by (auto split: if_splits)
    have compl: "\<forall>e\<in>set (Q @ C). site_of e = Crop \<longrightarrow> is_completed (outcome_of e)"
      using sitesQ c Inr by (auto split: if_splits)
    obtain bin s2 where f: "find_command E ''pdftoppm'' s1 = (bin, s2)" by force
    from find_command_quiet [OF f] obtain fe where
      t2: "st_trace s2 = st_trace s1 @ [fe]" and qf: "quiet fe" by auto
    let ?P = "Q @ C @ [fe]"
    have tP: "st_trace s2 = st_trace s @ ?P" using t1 t2 by simp
    have bP: "\<forall>e\<in>set ?P. before_raster e \<and> (site_of e = Crop \<longrightarrow> is_completed (outcome_of e))"
      using bq compl qf by (auto simp: quiet_before_raster quiet_def)
    have srcP: "src = pdf \<or> (src = joinpath (parent pdf) ''document-cropped.pdf'' \<and> crop
                       \<and> (\<exists>e\<in>set ?P. site_of e = Crop))"
      using src by auto
    show ?thesis
    proof (cases "with_suffix_empty png")
      case (Inl m)
      then have "res = conversion_error m" "s' = s2"
        using run cs Inr f by (auto simp: pdf_to_png_def)
      then have "events_since s s' = ?P" "\<exists>m. res = ConvertErr m"
        using tP by (simp_all add: events_since_append conversion_error_def)
      moreover have "\<forall>e\<in>set ?P. site_of e = Crop \<and> \<not> is_completed (outcome_of e)
                      \<longrightarrow> res = handled (outcome_of e)"
        using bP by blast
      moreover have "\<forall>e\<in>set ?P. before_raster e" using bP by blast
      ultimately show ?thesis by (intro stopped)
    next
      case stem: (Inr stem)
      let ?cmd = "raster_argv bin dpi src stem"
      obtain r s3 where rr: "subprocess_run E Raster ?cmd None 30 s2 = (r, s3)" by force
      note t3 = subprocess_run_trace [OF rr]
      have t3': "st_trace s3 = st_trace s @ ?P @ [Exec Raster ?cmd r]" using tP t3 by simp
      have step: "pdf_to_png E pdf png dpi crop s =
        (case r of
           TimeoutExpired \<Rightarrow> (conversion_timed_out, s3)
         | Raised m \<Rightarrow> (conversion_error m, s3)
         | Completed rc out err \<Rightarrow>
             if rc = 0
             then (if crop \<and> \<not> endswith src ''document-cropped.pdf''
                   then (case trim_png_inplace E png s3 of (t, s4) \<Rightarrow> (ConvertOk, s4))
                   else (ConvertOk, s3))
             else fallback_step E src png dpi crop s3)"
        using cs Inr f stem rr by (simp add: pdf_to_png_def raster_argv_def)
      show ?thesis
      proof (cases "is_completed r")
        case False
        then have "res = handled r" "s' = s3" using run step
          by (auto simp: is_completed_def handled_def split: outcome.splits)
        then have "events_since s s' = ?P @ [Exec Raster ?cmd r]" "res = handled r"
          using t3' by (simp_all add: events_since_append)
        then show ?thesis using bP False by (intro primary_raised)
      next
        case True
        show ?thesis
        proof (cases "exit_zero r")
          case ez: True
          show ?thesis
          proof (cases "crop \<and> \<not> endswith src ''document-cropped.pdf''")
            case trim: True
            obtain b s4 where tr: "trim_png_inplace E png s3 = (b, s4)" by force
            from trim_png_inplace_trace [OF tr] obtain e' rest where
              tt: "st_trace s4 = st_trace s3 @ e' # rest" "trim_probe e'" "\<forall>x\<in>set rest. trim_tail x"
              by blast
            have "res = ConvertOk" "s' = s4" using run step ez trim tr
              by (auto simp: exit_zero_def split: outcome.splits)
            then have "events_since s s' = ?P @ Exec Raster ?cmd r # (e' # rest)" "res = ConvertOk"
              using t3' tt by (simp_all add: events_since_append)
            moreover have "if crop \<and> \<not> endswith src ''document-cropped.pdf''
                then \<exists>e rest'. e' # rest = e # rest' \<and> trim_probe e \<and> (\<forall>x\<in>set rest'. trim_tail x)
                else e' # rest = []"
              using trim tt by simp
            ultimately show ?thesis using bP srcP ez
              by (intro primary_ok [where T = "e' # rest"])
          next
            case notrim: False
            have "res = ConvertOk" "s' = s3" using run step ez notrim
              by (auto simp: exit_zero_def split: outcome.splits)
            then have "events_since s s' = ?P @ Exec Raster ?cmd r # []" "res = ConvertOk"
              using t3' by (simp_all add: events_since_append)
            moreover have "if crop \<and> \<not> endswith src ''document-cropped.pdf''
                then \<exists>e rest'. [] = e # rest' \<and> trim_probe e \<and> (\<forall>x\<in>set rest'. trim_tail x)
                else [] = ([] :: event list)"
              using notrim by simp
            ultimately show ?thesis using bP srcP ez
              by (intro primary_ok [where T = "[]"])
          qed
        next
          case nz: False
          then have fb: "fallback_step E src png dpi crop s3 = (res, s')"
            using run step True
            by (auto simp: exit_zero_def is_completed_def split: outcome.splits if_splits)
          from fallback_step_trace [OF fb] obtain Q2 c2 r2 T where
            h2: "st_trace s' = st_trace s3 @ Q2 @ Exec Fallback c2 r2 # T \<and> (\<forall>e\<in>set Q2. quiet e)
              \<and> (if exit_zero r2
                  then res = ConvertOk
                    \<and> (if crop then (\<exists>e rest. T = e # rest \<and> trim_probe e \<and> (\<forall>x\<in>set rest. trim_tail x))
                        else T = [])
                  else T = [] \<and> res = (if is_completed r2 then failed_to_convert (stderr_of r2) else handled r2))"
            by (elim exE) (rule that)
          then have "events_since s s' = ?P @ Exec Raster ?cmd r # Q2 @ Exec Fallback c2 r2 # T"
            using t3' by (simp add: events_since_append)
          moreover have "\<forall>e\<in>set Q2. quiet e" using h2 by simp
          moreover have "if exit_zero r2
                  then res = ConvertOk
                    \<and> (if crop then (\<exists>e rest. T = e # rest \<and> trim_probe e \<and> (\<forall>x\<in>set rest. trim_tail x))
                        else T = [])
                  else T = [] \<and> res = (if is_completed r2 then failed_to_convert (stderr_of r2) else handled r2)"
            using h2 by simp
          ultimately show ?thesis using bP True nz
            by (intro fallback)
        qed
      qed
    qed
  qed
qed

lemma trim_shape_facts:
  assumes "\<exists>e rest. T = e # rest \<and> trim_probe e \<and> (\<forall>x\<in>set rest. trim_tail x)"
  shows "T \<noteq> []" and "\<exists>e\<in>set T. trim_probe e"
    and "\<forall>e\<in>set T. site_of e \<noteq> Crop \<and> site_of e \<noteq> Raster \<and> site_of e \<noteq> Fallback"
proof -
  from assms obtain e rest where T: "T = e # rest" and p: "trim_probe e"
    and t: "\<forall>x\<in>set rest. trim_tail x" by blast
  show "T \<noteq> []" using T by simp
  show "\<exists>e\<in>set T. trim_probe e" using T p by simp
  have "site_of e = CheckWhich" using p by (simp add: trim_probe_def)
  then show "\<forall>e\<in>set T. site_of e \<noteq> Crop \<and> site_of e \<noteq> Raster \<and> site_of e \<noteq> Fallback"
    using T t by (simp add: trim_tail_def)
qed

lemma pdf_to_png_cases:
  assumes run: "pdf_to_png E pdf png dpi crop s = (res, s')"
  obtains
    (stopped) P where
      "events_since s s' = P"
      "\<forall>e\<in>set P. before_raster e"
      "\<exists>m. res = ConvertErr m"
      "\<forall>e\<in>set P. site_of e = Crop \<and> \<not> is_completed (outcome_of e) \<longrightarrow> res = handled (outcome_of e)"
  | (primary_ok) P bin src stem r T where
      "events_since s s' = P @ Exec Raster (raster_argv bin dpi src stem) r # T"
      "\<forall>e\<in>set P. before_raster e \<and> (site_of e = Crop \<longrightarrow> is_completed (outcome_of e))"
      "src = pdf \<or> (src = joinpath (parent pdf) ''document-cropped.pdf'' \<and> crop
                       \<and> (\<exists>e\<in>set P. site_of e = Crop))"
      "exit_zero r" "res = ConvertOk"
      "\<forall>e\<in>set T. site_of e \<noteq> Crop \<and> site_of e \<noteq> Raster \<and> site_of e \<noteq> Fallback"
      "(\<exists>e\<in>set T. trim_probe e) \<longleftrightarrow> crop \<and> \<not> endswith src ''document-cropped.pdf''"
      "T \<noteq> [] \<longrightarrow> (\<exists>e\<in>set T. trim_probe e)"
  | (primary_raised) P bin src stem r where
      "events_since s s' = P @ [Exec Raster (raster_argv bin dpi src stem) r]"
      "\<forall>e\<in>set P. before_raster e \<and> (site_of e = Crop \<longrightarrow> is_completed (outcome_of e))"
      "\<not> is_completed r" "res = handled r"
  | (fallback) P bin src stem r Q c r2 T where
      "events_since s s' = P @ Exec Raster (raster_argv bin dpi src stem) r # Q @ Exec Fallback c r2 # T"
      "\<forall>e\<in>set P. before_raster e \<and> (site_of e = Crop \<longrightarrow> is_completed (outcome_of e))"
      "is_completed r" "\<not> exit_zero r"
      "\<forall>e\<in>set Q. quiet e"
      "\<forall>e\<in>set T. site_of e \<noteq> Crop \<and> site_of e \<noteq> Raster \<and> site_of e \<noteq> Fallback"
      "exit_zero r2 \<longrightarrow> res = ConvertOk \<and> ((\<exists>e\<in>set T. trim_probe e) \<longleftrightarrow> crop)"
      "\<not> exit_zero r2 \<longrightarrow>
         T = [] \<and> res = (if is_completed r2 then failed_to_convert (stderr_of r2) else handled r2)"
      "T \<noteq> [] \<longrightarrow> (\<exists>e\<in>set T. trim_probe e)"
  using run
proof (cases rule: pdf_to_png_cases_raw)
  case (stopped P)
  then show ?thesis by (intro that(1))
next
  case (primary_ok P bin src stem r T)
  let ?shape = "\<exists>e rest. T = e # rest \<and> trim_probe e \<and> (\<forall>x\<in>set rest. trim_tail x)"
  have alt: "(?shape \<and> crop \<and> \<not> endswith src ''document-cropped.pdf'')
           \<or> (T = [] \<and> \<not> (crop \<and> \<not> endswith src ''document-cropped.pdf''))"
    using primary_ok(6) by presburger
  have a: "\<forall>e\<in>set T. site_of e \<noteq> Crop \<and> site_of e \<noteq> Raster \<and> site_of e \<noteq> Fallback"
    using alt trim_shape_facts(3) [of T] by fastforce
  have b: "(\<exists>e\<in>set T. trim_probe e) \<longleftrightarrow> crop \<and> \<not> endswith src ''document-cropped.pdf''"
    using alt trim_shape_facts(2) [of T] by fastforce
  have c: "T \<noteq> [] \<longrightarrow> (\<exists>e\<in>set T. trim_probe e)"
    using alt trim_shape_facts(2) [of T] by fastforce
  from primary_ok(1-5) a b c show ?thesis by (intro that(2))
next
  case (primary_raised P bin src stem r)
  then show ?thesis by (intro that(3))
next
  case (fallback P bin src stem r Q c r2 T)
  let ?shape = "\<exists>e rest. T = e # rest \<and> trim_probe e \<and> (\<forall>x\<in>set rest. trim_tail x)"
  have alt: "(?shape \<and> crop \<and> exit_zero r2 \<and> res = ConvertOk)
           \<or> (T = [] \<and> \<not> crop \<and> exit_zero r2 \<and> res = ConvertOk)
           \<or> (T = [] \<and> \<not> exit_zero r2
               \<and> res = (if is_completed r2 then failed_to_convert (stderr_of r2) else handled r2))"
    using fallback(6) by presburger
  have a: "\<forall>e\<in>set T. site_of e \<noteq> Crop \<and> site_of e \<noteq> Raster \<and> site_of e \<noteq> Fallback"
    using alt trim_shape_facts(3) [of T] by fastforce
  have b: "exit_zero r2 \<longrightarrow> res = ConvertOk \<and> ((\<exists>e\<in>set T. trim_probe e) \<longleftrightarrow> crop)"
    using alt trim_shape_facts(2) [of T] by fastforce
  have c: "\<not> exit_zero r2 \<longrightarrow>
         T = [] \<and> res = (if is_completed r2 then failed_to_convert (stderr_of r2) else handled r2)"
    using alt by fastforce
  have d: "T \<noteq> [] \<longrightarrow> (\<exists>e\<in>set T. trim_probe e)"
    using alt trim_shape_facts(2) [of T] by fastforce
  from fallback(1-5) a b c d show ?thesis by (intro that(4))
qed

lemma trim_entered_iff: "trim_entered tr \<longleftrightarrow> (\<exists>e\<in>set tr. trim_probe e)"
  by (simp add: trim_entered_def list_ex_iff)

lemma count_site_pos: "0 < count_site k tr \<longleftrightarrow> (\<exists>e\<in>set tr. site_of e = k)"
  by (simp add: count_site_def filter_empty_conv)

lemma before_rasterD:
  "before_raster e \<Longrightarrow> site_of e \<noteq> Raster \<and> site_of e \<noteq> Fallback \<and> site_of e \<noteq> Trim \<and> \<not> trim_probe e"
  by (simp add: before_raster_def)

lemma quietD:
  "quiet e \<Longrightarrow> site_of e \<noteq> Crop \<and> site_of e \<noteq> Raster \<and> site_of e \<noteq> Fallback \<and> site_of e \<noteq> Trim \<and> \<not> trim_probe e"
  by (simp add: quiet_def)

lemma trim_tailD:
  "trim_tail e \<Longrightarrow> site_of e \<noteq> Crop \<and> site_of e \<noteq> Raster \<and> site_of e \<noteq> Fallback"
  by (simp add: trim_tail_def)

lemma trim_probeD: "trim_probe e \<Longrightarrow> site_of e = CheckWhich"
  by (simp add: trim_probe_def)

lemma not_in_by_site: "\<forall>e\<in>set xs. site_of e \<noteq> k \<Longrightarrow> Exec k c r \<notin> set xs"
  by force

lemma no_probe_by_quiet: "\<forall>e\<in>set xs. before_raster e \<Longrightarrow> \<not> (\<exists>e\<in>set xs. trim_probe e)"
  by (auto dest: before_rasterD)

lemma raster_no_probe: "\<not> trim_probe (Exec Raster c r)" "\<not> trim_probe (Exec Fallback c r)"
  by (simp_all add: trim_probe_def)

text \<open>
  The two guards of the trim, read off the trace.  Entering \<^verbatim>\<open>_trim_png_inplace\<close>
  shows in the trace as its first probe, \<^verbatim>\<open>which magick\<close> from
  \<^verbatim>\<open>check_command\<close>, which no other step of a conversion issues.  After the primary
  rasterizer has exited with status 0 (line 220), the trim is entered exactly when
  \<^verbatim>\<open>crop\<close> is set and the path of the rasterized source does not end in
  \<^verbatim>\<open>document-cropped.pdf\<close>; that source is the given PDF, or the cropped one, which
  needs \<^verbatim>\<open>crop\<close> and a run of the cropper.  After the fallback tool has exited with
  status 0 (line 234), the trim is entered exactly when \<^verbatim>\<open>crop\<close> is set.  The trim
  command itself runs only inside an entered trim.
\<close>

lemma pdf_to_png_trim_guards:
  assumes run: "pdf_to_png E pdf png dpi crop s = (res, s')"
  shows "(\<forall>c out err. Exec Raster c (Completed 0 out err) \<in> set (events_since s s') \<longrightarrow>
            (\<exists>bin src stem.
                c = [bin, ''-png'', ''-singlefile'', ''-r'', str_int dpi, src, stem]
              \<and> (src = pdf \<or> src = joinpath (parent pdf) ''document-cropped.pdf'' \<and> crop
                               \<and> crop_ran (events_since s s'))
              \<and> (trim_entered (events_since s s')
                    \<longleftrightarrow> crop \<and> \<not> endswith src ''document-cropped.pdf'')))
       \<and> (\<forall>c out err. Exec Fallback c (Completed 0 out err) \<in> set (events_since s s') \<longrightarrow>
            (trim_entered (events_since s s') \<longleftrightarrow> crop))
       \<and> (trim_run (events_since s s') \<longrightarrow> trim_entered (events_since s s'))"
  using run
proof (cases rule: pdf_to_png_cases)
  case (stopped P)
  have "\<forall>e\<in>set P. site_of e \<noteq> Raster" "\<forall>e\<in>set P. site_of e \<noteq> Fallback"
    "\<forall>e\<in>set P. site_of e \<noteq> Trim"
    using stopped(2) by (auto dest: before_rasterD)
  then have "\<forall>c r. Exec Raster c r \<notin> set P" "\<forall>c r. Exec Fallback c r \<notin> set P"
    "\<not> trim_run P"
    by (auto simp: trim_run_def count_site_pos)
  then show ?thesis unfolding stopped(1) by simp
next
  case (primary_ok P bin src stem r T)
  let ?ev = "events_since s s'"
  have P: "\<forall>e\<in>set P. site_of e \<noteq> Raster" "\<forall>e\<in>set P. site_of e \<noteq> Fallback"
    "\<forall>e\<in>set P. site_of e \<noteq> Trim" "\<forall>e\<in>set P. before_raster e"
    using primary_ok(2) by (auto dest: before_rasterD)
  have T: "\<forall>e\<in>set T. site_of e \<noteq> Raster" "\<forall>e\<in>set T. site_of e \<noteq> Fallback"
    using primary_ok(6) by auto
  have entered: "trim_entered ?ev \<longleftrightarrow> crop \<and> \<not> endswith src ''document-cropped.pdf''"
    unfolding primary_ok(1) trim_entered_iff
    using no_probe_by_quiet [OF P(4)] primary_ok(7) by (auto simp: raster_no_probe)
  have src: "src = pdf \<or> src = joinpath (parent pdf) ''document-cropped.pdf'' \<and> crop \<and> crop_ran ?ev"
    using primary_ok(3) unfolding primary_ok(1) crop_ran_def count_site_pos by auto
  have only: "\<And>c r'. Exec Raster c r' \<in> set ?ev \<Longrightarrow> c = raster_argv bin dpi src stem"
    unfolding primary_ok(1) using not_in_by_site [OF P(1)] not_in_by_site [OF T(1)] by auto
  have c1: "\<forall>c out err. Exec Raster c (Completed 0 out err) \<in> set ?ev \<longrightarrow>
            (\<exists>bin src stem.
                c = [bin, ''-png'', ''-singlefile'', ''-r'', str_int dpi, src, stem]
              \<and> (src = pdf \<or> src = joinpath (parent pdf) ''document-cropped.pdf'' \<and> crop
                               \<and> crop_ran ?ev)
              \<and> (trim_entered ?ev \<longleftrightarrow> crop \<and> \<not> endswith src ''document-cropped.pdf''))"
  proof (intro allI impI)
    fix c out err
    assume "Exec Raster c (Completed 0 out err) \<in> set ?ev"
    then have "c = [bin, ''-png'', ''-singlefile'', ''-r'', str_int dpi, src, stem]"
      using only unfolding raster_argv_def by blast
    then show "\<exists>bin src stem.
                c = [bin, ''-png'', ''-singlefile'', ''-r'', str_int dpi, src, stem]
              \<and> (src = pdf \<or> src = joinpath (parent pdf) ''document-cropped.pdf'' \<and> crop
                               \<and> crop_ran ?ev)
              \<and> (trim_entered ?ev \<longleftrightarrow> crop \<and> \<not> endswith src ''document-cropped.pdf'')"
      using src entered by (intro exI [of _ bin] exI [of _ src] exI [of _ stem]) simp
  qed
  have c2: "\<forall>c out err. Exec Fallback c (Completed 0 out err) \<notin> set ?ev"
    unfolding primary_ok(1) using not_in_by_site [OF P(2)] not_in_by_site [OF T(2)] by simp
  have c3: "trim_run ?ev \<longrightarrow> trim_entered ?ev"
  proof
    assume "trim_run ?ev"
    then have "T \<noteq> []" unfolding primary_ok(1) trim_run_def count_site_pos using P(3) by auto
    then have "\<exists>e\<in>set T. trim_probe e" using primary_ok(8) by simp
    then show "trim_entered ?ev" unfolding primary_ok(1) trim_entered_iff by auto
  qed
  from c1 c2 c3 show ?thesis by simp
next
  case (primary_raised P bin src stem r)
  have P: "\<forall>e\<in>set P. site_of e \<noteq> Raster" "\<forall>e\<in>set P. site_of e \<noteq> Fallback"
    "\<forall>e\<in>set P. site_of e \<noteq> Trim"
    using primary_raised(2) by (auto dest: before_rasterD)
  have r: "\<forall>out err. r \<noteq> Completed 0 out err" using primary_raised(3) by (auto simp: is_completed_def)
  have "\<forall>c out err. Exec Raster c (Completed 0 out err) \<notin> set (events_since s s')"
    unfolding primary_raised(1) using not_in_by_site [OF P(1)] r by auto
  moreover have "\<forall>c r. Exec Fallback c r \<notin> set (events_since s s')"
    unfolding primary_raised(1) using not_in_by_site [OF P(2)] by simp
  moreover have "\<not> trim_run (events_since s s')"
    unfolding primary_raised(1) trim_run_def count_site_pos using P(3) by auto
  ultimately show ?thesis by simp
next
  case (fallback P bin src stem r Q c r2 T)
  let ?ev = "events_since s s'"
  have P: "\<forall>e\<in>set P. site_of e \<noteq> Raster" "\<forall>e\<in>set P. site_of e \<noteq> Fallback"
    "\<forall>e\<in>set P. site_of e \<noteq> Trim" "\<forall>e\<in>set P. before_raster e"
    using fallback(2) by (auto dest: before_rasterD)
  have Q: "\<forall>e\<in>set Q. site_of e \<noteq> Raster" "\<forall>e\<in>set Q. site_of e \<noteq> Fallback"
    "\<forall>e\<in>set Q. site_of e \<noteq> Trim" "\<forall>e\<in>set Q. before_raster e"
    using fallback(5) by (auto dest: quietD simp: quiet_before_raster)
  have T: "\<forall>e\<in>set T. site_of e \<noteq> Raster" "\<forall>e\<in>set T. site_of e \<noteq> Fallback"
    using fallback(6) by auto
  have r: "\<forall>out err. r \<noteq> Completed 0 out err" using fallback(4) by (auto simp: exit_zero_def)
  have probes: "trim_entered ?ev \<longleftrightarrow> (\<exists>e\<in>set T. trim_probe e)"
    unfolding fallback(1) trim_entered_iff
    using no_probe_by_quiet [OF P(4)] no_probe_by_quiet [OF Q(4)] by (auto simp: raster_no_probe)
  have c1: "\<forall>c out err. Exec Raster c (Completed 0 out err) \<notin> set ?ev"
    unfolding fallback(1)
    using not_in_by_site [OF P(1)] not_in_by_site [OF Q(1)] not_in_by_site [OF T(1)] r by auto
  have only: "\<And>c' r'. Exec Fallback c' r' \<in> set ?ev \<Longrightarrow> r' = r2"
    unfolding fallback(1)
    using not_in_by_site [OF P(2)] not_in_by_site [OF Q(2)] not_in_by_site [OF T(2)] by auto
  have c2: "\<forall>c' out err. Exec Fallback c' (Completed 0 out err) \<in> set ?ev \<longrightarrow>
            (trim_entered ?ev \<longleftrightarrow> crop)"
  proof (intro allI impI)
    fix c' out err
    assume "Exec Fallback c' (Completed 0 out err) \<in> set ?ev"
    then have "r2 = Completed 0 out err" using only by blast
    then have "exit_zero r2" by (simp add: exit_zero_def)
    then show "trim_entered ?ev \<longleftrightarrow> crop" using fallback(7) probes by simp
  qed
  have c3: "trim_run ?ev \<longrightarrow> trim_entered ?ev"
  proof
    assume "trim_run ?ev"
    then have "T \<noteq> []" unfolding fallback(1) trim_run_def count_site_pos using P(3) Q(3) by auto
    then show "trim_entered ?ev" using fallback(9) probes by simp
  qed
  from c1 c2 c3 show ?thesis by simp
qed

lemma pdf_to_png_trim_guards_runs:
  "Exec Fallback [''/usr/bin/convert'', ''-density'', ''300'', cropped_path, png_path]
        (Completed 0 [] []) \<in> set (events_in crop_then_fallback)
   \<and> trim_entered (events_in crop_then_fallback)
   \<and> Exec Raster [''/usr/bin/pdftoppm'', ''-png'', ''-singlefile'', ''-r'', ''300'',
                   pdf_path, png_stem]
        (Completed 0 [] []) \<in> set (events_in primary_works)
   \<and> \<not> endswith pdf_path ''document-cropped.pdf''
   \<and> trim_entered (events_in primary_works)
   \<and> trim_run (events_in primary_works)"
proof -
  let ?a = "convert_in crop_then_fallback"
  let ?b = "convert_in primary_works"
  have ra: "pdf_to_png script_env pdf_path png_path 300 True (compiled crop_then_fallback)
              = (fst ?a, snd ?a)"
    by (simp add: convert_in_def)
  have rb: "pdf_to_png script_env pdf_path png_path 300 True (compiled primary_works)
              = (fst ?b, snd ?b)"
    by (simp add: convert_in_def)
  note wa = pdf_to_png_trim_guards [OF ra, folded events_in_def]
  note wb = pdf_to_png_trim_guards [OF rb, folded events_in_def]
  have ha: "Exec Fallback [''/usr/bin/convert'', ''-density'', ''300'', cropped_path, png_path]
        (Completed 0 [] []) \<in> set (events_in crop_then_fallback)"
    by code_simp
  have hb: "Exec Raster [''/usr/bin/pdftoppm'', ''-png'', ''-singlefile'', ''-r'', ''300'',
                   pdf_path, png_stem]
        (Completed 0 [] []) \<in> set (events_in primary_works)"
    by code_simp
  have hc: "\<not> endswith pdf_path ''document-cropped.pdf''" by code_simp
  have hd: "trim_run (events_in primary_works)" by code_simp
  have ca: "trim_entered (events_in crop_then_fallback)"
    using wa ha by blast
  have cb: "trim_entered (events_in primary_works)"
    using wb hd by blast
  show ?thesis by (intro conjI ha ca hb hc cb hd)
qed

text \<open>
  Claim C4 fails on the code.  With \<^verbatim>\<open>crop\<close> set, let the cropper run and leave the
  cropped PDF, which becomes the source.  When the primary rasterizer then exits with
  status 1 and the fallback tool succeeds, \<^verbatim>\<open>_trim_png_inplace\<close> is entered and the
  trim command runs on the image of the cropped PDF, although the vector crop did run:
  line 234 tests \<^verbatim>\<open>crop\<close> alone.  When the primary rasterizer succeeds on the same
  cropped PDF, the trim is not entered and no trim command runs: line 220, under the
  comment ``if pdfcrop wasn't available'', also tests that the source is not the cropped
  PDF.  The policy after the fallback tool is not the policy after the primary rasterizer.
\<close>

theorem pdf_to_png_fallback_trims_after_crop:
  "fst (convert_in crop_then_fallback) = ConvertOk
   \<and> count_site Crop (events_in crop_then_fallback) = 1
   \<and> path_exists cropped_path (st_fs (snd (convert_in crop_then_fallback)))
   \<and> Exec Raster [''/usr/bin/pdftoppm'', ''-png'', ''-singlefile'', ''-r'', ''300'',
                   cropped_path, png_stem]
        (Completed 1 [] ''Syntax Error: could not read the page'')
        \<in> set (events_in crop_then_fallback)
   \<and> Exec Fallback [''/usr/bin/convert'', ''-density'', ''300'', cropped_path, png_path]
        (Completed 0 [] []) \<in> set (events_in crop_then_fallback)
   \<and> trim_entered (events_in crop_then_fallback)
   \<and> Exec Trim [''/usr/bin/convert'', png_path, ''-trim'', ''+repage'', png_path]
        (Completed 0 [] []) \<in> set (events_in crop_then_fallback)
   \<and> fst (convert_in crop_then_primary) = ConvertOk
   \<and> count_site Crop (events_in crop_then_primary) = 1
   \<and> path_exists cropped_path (st_fs (snd (convert_in crop_then_primary)))
   \<and> Exec Raster [''/usr/bin/pdftoppm'', ''-png'', ''-singlefile'', ''-r'', ''300'',
                   cropped_path, png_stem]
        (Completed 0 [] []) \<in> set (events_in crop_then_primary)
   \<and> \<not> trim_entered (events_in crop_then_primary)
   \<and> count_site Trim (events_in crop_then_primary) = 0"
  by code_simp










section \<open>WorkspaceManager\<close>

lemma joinpath_neq:
  "joinpath p ''references.bib'' \<noteq> p"
  "joinpath p ''references.bib'' \<noteq> joinpath p ''document.tex''"
  by (simp_all add: joinpath_def)

lemma path_exists_Cons:
  "path_exists p ((q, n) # f) \<longleftrightarrow> p = q \<or> path_exists p f"
  by (auto simp: path_exists_def)

lemma mkdir_exists:
  "mkdir_exist_ok d f = Inr f' \<Longrightarrow> p \<noteq> d \<Longrightarrow> path_exists p f' = path_exists p f"
  by (auto simp: mkdir_exist_ok_def path_exists_Cons split: option.splits node.splits if_splits)

lemma write_text_exists:
  "write_text q c f = Inr f' \<Longrightarrow> path_exists p f' \<longleftrightarrow> p = q \<or> path_exists p f"
  by (auto simp: write_text_def path_exists_Cons split: option.splits node.splits if_splits)

text \<open>
  Claim C8, as the code has it.  When lines 49 to 87 of \<^verbatim>\<open>render_snippet\<close> have run
  without an exception, in a workspace that held no bibliography file before, the
  bibliography file exists in the workspace if and only if \<^verbatim>\<open>bib_entries\<close> was supplied
  and is not the empty string.
\<close>

theorem stage_workspace_bibliography:
  assumes st: "stage_workspace E body preamble_extra bib_entries use_biblatex s
                 = (Inr (temp_id, temp_path), s')"
    and fresh: "\<not> path_exists (joinpath temp_path ''references.bib'') (st_fs s)"
  shows "path_exists (joinpath temp_path ''references.bib'') (st_fs s')
           \<longleftrightarrow> (\<exists>e. bib_entries = Some e \<and> e \<noteq> [])"
proof -
  let ?bib = "joinpath temp_path ''references.bib''"
  obtain tid x where u: "env_uuid4 E (st_ext s) = (tid, x)" by force
  let ?dir = "joinpath (env_TEMP_DIR E) tid"
  let ?doc = "assemble_document body preamble_extra bib_entries use_biblatex"
  from st u obtain f1 where m: "mkdir_exist_ok ?dir (st_fs s) = Inr f1"
    by (cases "mkdir_exist_ok ?dir (st_fs s)") (auto simp: stage_workspace_def Let_def)
  from st u m obtain f2 where w: "write_text (joinpath ?dir ''document.tex'') ?doc f1 = Inr f2"
    by (cases "write_text (joinpath ?dir ''document.tex'') ?doc f1")
       (auto simp: stage_workspace_def Let_def)
  have dir: "temp_path = ?dir"
    using st u m w
    by (auto simp: stage_workspace_def Let_def split: option.splits if_splits sum.splits)
  have e1: "\<not> path_exists ?bib f1"
    using mkdir_exists [OF m, of ?bib] fresh joinpath_neq(1) [of temp_path] dir by simp
  have e2: "\<not> path_exists ?bib f2"
    using write_text_exists [OF w, of ?bib] e1 joinpath_neq(2) [of temp_path] dir by simp
  show ?thesis
  proof (cases "truthy bib_entries")
    case False
    then have "st_fs s' = f2" using st u m w
      by (auto simp: stage_workspace_def Let_def split: option.splits)
    moreover have "\<not> (\<exists>e. bib_entries = Some e \<and> e \<noteq> [])"
      using False by (cases bib_entries) auto
    ultimately show ?thesis using e2 by simp
  next
    case True
    then obtain e where e: "bib_entries = Some e" "e \<noteq> []" by (cases bib_entries) auto
    from st u m w e obtain f3 where
      b: "write_text (joinpath ?dir ''references.bib'') e f2 = Inr f3" and s': "st_fs s' = f3"
      by (cases "write_text (joinpath ?dir ''references.bib'') e f2")
         (auto simp: stage_workspace_def Let_def)
    have "path_exists ?bib f3" using write_text_exists [OF b, of ?bib] dir by simp
    then show ?thesis using s' e by simp
  qed
qed

theorem stage_workspace_bibliography_witness:
  "stage_workspace script_env good_body [] (Some some_entries) False (start [])
     = (Inr (''1b4e28ba-2fa1-41d2-883f-0016d3cca427'', ws),
        snd (stage_workspace script_env good_body [] (Some some_entries) False (start [])))
   \<and> \<not> path_exists (joinpath ws ''references.bib'') (st_fs (start []))
   \<and> path_exists (joinpath ws ''references.bib'')
        (st_fs (snd (stage_workspace script_env good_body [] (Some some_entries) False (start []))))
   \<and> stage_workspace script_env good_body [] None False (start [])
     = (Inr (''1b4e28ba-2fa1-41d2-883f-0016d3cca427'', ws),
        snd (stage_workspace script_env good_body [] None False (start [])))
   \<and> \<not> path_exists (joinpath ws ''references.bib'')
        (st_fs (snd (stage_workspace script_env good_body [] None False (start []))))"
proof -
  let ?a = "stage_workspace script_env good_body [] (Some some_entries) False (start [])"
  let ?b = "stage_workspace script_env good_body [] None False (start [])"
  have ha: "?a = (Inr (''1b4e28ba-2fa1-41d2-883f-0016d3cca427'', ws), snd ?a)" by code_simp
  have hb: "?b = (Inr (''1b4e28ba-2fa1-41d2-883f-0016d3cca427'', ws), snd ?b)" by code_simp
  have fr: "\<not> path_exists (joinpath ws ''references.bib'') (st_fs (start []))" by code_simp
  have ne: "some_entries \<noteq> []" by (simp add: some_entries_def)
  have ca: "path_exists (joinpath ws ''references.bib'') (st_fs (snd ?a))"
    using stage_workspace_bibliography [OF ha fr] ne by simp
  have cb: "\<not> path_exists (joinpath ws ''references.bib'') (st_fs (snd ?b))"
    using stage_workspace_bibliography [OF hb fr] by simp
  show ?thesis by (intro conjI ha fr ca hb cb)
qed

text \<open>
  Claim C8 as stated fails at the edge it names: for \<^verbatim>\<open>bib_entries\<close> supplied as the
  empty string the document is written and the bibliography file is not.
\<close>

theorem stage_workspace_empty_entries_counterexample:
  "fst (stage_workspace script_env good_body [] (Some []) False (start []))
     = Inr (''1b4e28ba-2fa1-41d2-883f-0016d3cca427'', ws)
   \<and> path_exists tex_path
        (st_fs (snd (stage_workspace script_env good_body [] (Some []) False (start []))))
   \<and> \<not> path_exists bib_path
        (st_fs (snd (stage_workspace script_env good_body [] (Some []) False (start []))))
   \<and> bib_path = joinpath ws ''references.bib''"
  by code_simp

text \<open>
  Claim C1 fails on the code: \<^verbatim>\<open>shutil.rmtree\<close> (line 116) stands on the success path
  only.  For a body that calls an undefined macro, on which the compiler exits with status 1,
  \<^verbatim>\<open>render_snippet\<close> returns the compilation failure and the workspace directory, with
  the document in it, is still there; for a request that succeeds the same workspace is
  gone when the call returns.
\<close>

theorem render_snippet_leaves_workspace_on_failure:
  "fst (render_in bad_body pass0_fails)
     = RenderErr ''LaTeX compilation failed'' (Some ''! Undefined control sequence.\<newline>'')
   \<and> is_dir ws (st_fs (snd (render_in bad_body pass0_fails)))
   \<and> path_exists tex_path (st_fs (snd (render_in bad_body pass0_fails)))
   \<and> fst (render_in good_body render_ok)
       = RenderOk ''UE5H'' ''1b4e28ba-2fa1-41d2-883f-0016d3cca427''
   \<and> \<not> path_exists ws (st_fs (snd (render_in good_body render_ok)))
   \<and> st_fs (snd (render_in good_body render_ok)) = [(''/srv/temp'', Dir)]"
  by code_simp

section \<open>The public interface\<close>

subsection \<open>A conversion invokes neither the compiler nor the bibliography tool\<close>

lemma adds_onlyI:
  "st_trace s' = st_trace s @ new \<Longrightarrow> \<forall>e\<in>set new. P e \<Longrightarrow> adds_only P s s'"
  by (simp add: adds_only_def events_since_def list_all_iff)

lemma adds_onlyD:
  assumes "adds_only P s s'"
  shows "st_trace s' = st_trace s @ events_since s s'" and "\<forall>e\<in>set (events_since s s'). P e"
  using assms by (auto simp: adds_only_def events_since_def list_all_iff prefix_def)

lemma adds_only_refl: "adds_only P s s"
  by (simp add: adds_only_def events_since_def)

lemma adds_only_trans:
  assumes "adds_only P s s1" and "adds_only P s1 s2"
  shows "adds_only P s s2"
proof -
  note a = adds_onlyD [OF assms(1)] and b = adds_onlyD [OF assms(2)]
  have "st_trace s2 = st_trace s @ (events_since s s1 @ events_since s1 s2)"
    using a(1) b(1) by simp
  moreover have "\<forall>e\<in>set (events_since s s1 @ events_since s1 s2). P e"
    using a(2) b(2) by auto
  ultimately show ?thesis by (rule adds_onlyI)
qed

lemma subprocess_run_adds:
  assumes "subprocess_run E k cmd cwd t s = (r, s')" and "k \<noteq> Compiler" and "k \<noteq> BibTool"
  shows "adds_only convert_site s s'"
  using subprocess_run_trace [OF assms(1)] assms(2,3)
  by (intro adds_onlyI [where new = "[Exec k cmd r]"]) (simp_all add: convert_site_def)

lemma find_command_adds:
  assumes "find_command E c s = (p, s')"
  shows "adds_only convert_site s s'"
proof -
  from find_command_trace [OF assms] obtain r where
    "st_trace s' = st_trace s @ [Exec FindWhich [''which'', c] r]" by blast
  then show ?thesis by (rule adds_onlyI) (simp add: convert_site_def)
qed

lemma check_command_adds:
  assumes "check_command E c s = (b, s')"
  shows "adds_only convert_site s s'"
proof -
  from check_command_trace [OF assms] obtain r rest where
    h: "st_trace s' = st_trace s @ Exec CheckWhich [''which'', c] r # rest"
    and r: "rest = [] \<or> (\<exists>r2. rest = [Exec CheckVersion [c, ''--version''] r2])"
    by blast
  from r have "\<forall>e\<in>set (Exec CheckWhich [''which'', c] r # rest). convert_site e"
    by (auto simp: convert_site_def)
  with h show ?thesis by (rule adds_onlyI)
qed

lemma trim_png_inplace_adds:
  assumes "trim_png_inplace E png s = (b, s')"
  shows "adds_only convert_site s s'"
proof -
  obtain m s1 where c1: "check_command E ''magick'' s = (m, s1)" by force
  note a1 = check_command_adds [OF c1]
  show ?thesis
  proof (cases m)
    case True
    obtain tc s2 where f: "find_command E ''magick'' s1 = (tc, s2)" by force
    obtain r3 s3 where t: "subprocess_run E Trim [tc, png, ''-trim'', ''+repage'', png] None 20 s2 = (r3, s3)" by force
    have "s' = s3" using assms c1 True f t
      by (auto simp: trim_png_inplace_def split: outcome.splits)
    moreover have "adds_only convert_site s2 s3" using t by (rule subprocess_run_adds) simp_all
    ultimately show ?thesis using a1 find_command_adds [OF f] by (blast intro: adds_only_trans)
  next
    case False
    obtain c s2 where c2: "check_command E ''convert'' s1 = (c, s2)" by force
    note a2 = adds_only_trans [OF a1 check_command_adds [OF c2]]
    show ?thesis
    proof (cases c)
      case True
      obtain tc s3 where f: "find_command E ''convert'' s2 = (tc, s3)" by force
      obtain r3 s4 where t: "subprocess_run E Trim [tc, png, ''-trim'', ''+repage'', png] None 20 s3 = (r3, s4)" by force
      have "s' = s4" using assms c1 False c2 True f t
        by (auto simp: trim_png_inplace_def split: outcome.splits)
      moreover have "adds_only convert_site s3 s4" using t by (rule subprocess_run_adds) simp_all
      ultimately show ?thesis using a2 find_command_adds [OF f] by (blast intro: adds_only_trans)
    next
      case c: False
      have "s' = s2" using assms c1 False c2 c by (auto simp: trim_png_inplace_def)
      then show ?thesis using a2 by simp
    qed
  qed
qed

lemma crop_step_adds:
  assumes "crop_step E pdf crop s = (res, s')"
  shows "adds_only convert_site s s'"
proof (cases crop)
  case False
  then have "s' = s" using assms by (auto simp: crop_step_def)
  then show ?thesis by (simp add: adds_only_refl)
next
  case True
  obtain av sa where c: "check_command E ''pdfcrop'' s = (av, sa)" by force
  note a1 = check_command_adds [OF c]
  show ?thesis
  proof (cases av)
    case False
    then have "s' = sa" using assms True c by (auto simp: crop_step_def)
    then show ?thesis using a1 by simp
  next
    case av: True
    obtain pc sb where f: "find_command E ''pdfcrop'' sa = (pc, sb)" by force
    obtain r sc where run: "subprocess_run E Crop
        [pc, ''--margins'', ''3'', pdf, joinpath (parent pdf) ''document-cropped.pdf''] None 30 sb = (r, sc)"
      by force
    have "s' = sc" using assms True c av f run
      by (auto simp: crop_step_def Let_def split: outcome.splits)
    moreover have "adds_only convert_site sb sc" using run by (rule subprocess_run_adds) simp_all
    ultimately show ?thesis using a1 find_command_adds [OF f] by (blast intro: adds_only_trans)
  qed
qed

lemma fallback_step_adds:
  assumes "fallback_step E src png dpi crop s = (res, s')"
  shows "adds_only convert_site s s'"
proof -
  obtain cv sa where c: "check_command E ''convert'' s = (cv, sa)" by force
  obtain cc sb where f: "find_command E (if cv then ''convert'' else ''magick'') sa = (cc, sb)" by force
  obtain r sc where run: "subprocess_run E Fallback [cc, ''-density'', str_int dpi, src, png] None 30 sb = (r, sc)" by force
  obtain b sd where tr: "trim_png_inplace E png sc = (b, sd)" by force
  have a3: "adds_only convert_site sb sc" using run by (rule subprocess_run_adds) simp_all
  have a: "adds_only convert_site s sc"
    using check_command_adds [OF c] find_command_adds [OF f] a3 by (blast intro: adds_only_trans)
  have "s' = sc \<or> s' = sd" using assms c f run tr
    by (auto simp: fallback_step_def split: outcome.splits if_splits)
  then show ?thesis using a trim_png_inplace_adds [OF tr] by (blast intro: adds_only_trans)
qed

lemma pdf_to_png_adds:
  assumes "pdf_to_png E pdf png dpi crop s = (res, s')"
  shows "adds_only convert_site s s'"
proof -
  obtain cr s1 where cs: "crop_step E pdf crop s = (cr, s1)" by force
  note a1 = crop_step_adds [OF cs]
  show ?thesis
  proof (cases cr)
    case (Inl r0)
    then have "s' = s1" using assms cs by (auto simp: pdf_to_png_def)
    then show ?thesis using a1 by simp
  next
    case (Inr src)
    obtain bin s2 where f: "find_command E ''pdftoppm'' s1 = (bin, s2)" by force
    note a2 = adds_only_trans [OF a1 find_command_adds [OF f]]
    show ?thesis
    proof (cases "with_suffix_empty png")
      case (Inl m)
      then have "s' = s2" using assms cs Inr f by (auto simp: pdf_to_png_def)
      then show ?thesis using a2 by simp
    next
      case stem: (Inr stem)
      obtain r s3 where rr: "subprocess_run E Raster
          [bin, ''-png'', ''-singlefile'', ''-r'', str_int dpi, src, stem] None 30 s2 = (r, s3)" by force
      have "adds_only convert_site s2 s3" using rr by (rule subprocess_run_adds) simp_all
      note a3 = adds_only_trans [OF a2 this]
      obtain b s4 where tr: "trim_png_inplace E png s3 = (b, s4)" by force
      obtain fr s5 where fb: "fallback_step E src png dpi crop s3 = (fr, s5)" by force
      have "s' = s3 \<or> s' = s4 \<or> s' = s5" using assms cs Inr f stem rr tr fb
        by (auto simp: pdf_to_png_def split: outcome.splits if_splits)
      then show ?thesis using a3 trim_png_inplace_adds [OF tr] fallback_step_adds [OF fb]
        by (blast intro: adds_only_trans)
    qed
  qed
qed

lemma stage_workspace_trace:
  "stage_workspace E body pe bib bl s = (res, s1) \<Longrightarrow> st_trace s1 = st_trace s"
  by (auto simp: stage_workspace_def Let_def split: prod.splits sum.splits option.splits if_splits)

subsection \<open>No pass at all\<close>

lemma count_site_zero: "\<forall>e\<in>set tr. site_of e \<noteq> k \<Longrightarrow> count_site k tr = 0"
  by (simp add: count_site_def filter_empty_conv)

lemma render_snippet_no_pass:
  assumes np: "passes \<le> 0"
    and run: "render_snippet E body pe sg passes bib bl hw s = (res, s')"
  shows "count_site Compiler (events_since s s') = 0
       \<and> count_site BibTool (events_since s s') = 0
       \<and> (\<forall>tid tp s1. stage_workspace E body pe bib bl s = (Inr (tid, tp), s1) \<longrightarrow>
            st_trace s' = st_trace (snd (pdf_to_png E (joinpath tp ''document.pdf'')
                                            (joinpath tp ''document.png'') 300 True s1))
          \<and> (\<forall>e. fst (pdf_to_png E (joinpath tp ''document.pdf'')
                           (joinpath tp ''document.png'') 300 True s1) = ConvertErr e
                   \<longrightarrow> res = RenderErr e None)
          \<and> (fst (pdf_to_png E (joinpath tp ''document.pdf'')
                      (joinpath tp ''document.png'') 300 True s1) = ConvertOk
                   \<longrightarrow> (\<exists>img. res = RenderOk img tid) \<or> (\<exists>m. res = unexpected_error m)))"
proof -
  obtain sr s1 where st: "stage_workspace E body pe bib bl s = (sr, s1)" by force
  note t1 = stage_workspace_trace [OF st]
  show ?thesis
  proof (cases sr)
    case (Inl m)
    then have "s' = s1" using run st by (simp add: render_snippet_def)
    then have "events_since s s' = []" using t1 by (simp add: events_since_def)
    then show ?thesis using st Inl by (simp add: count_site_def)
  next
    case (Inr w)
    obtain tid tp where w: "w = (tid, tp)" by force
    let ?conv = "pdf_to_png E (joinpath tp ''document.pdf'') (joinpath tp ''document.png'') 300 True s1"
    obtain cr s3 where cv: "?conv = (cr, s3)" by force
    have cl: "compile_latex E (joinpath tp ''document.tex'') passes bl hw s1 = (CompileOk, s1)"
      using np by (simp add: compile_latex_def)
    have step: "(res, s') =
        (case cr of
           ConvertErr e \<Rightarrow> (RenderErr e None, s3)
         | ConvertOk \<Rightarrow>
             (case read_bytes (joinpath tp ''document.png'') (st_fs s3) of
                Inl m \<Rightarrow> (unexpected_error m, s3)
              | Inr bytes \<Rightarrow>
                  (case rmtree tp (st_fs s3) of
                     Inl m \<Rightarrow> (unexpected_error m, s3)
                   | Inr f \<Rightarrow> (RenderOk (b64encode bytes) tid, s3\<lparr>st_fs := f\<rparr>))))"
      using run st Inr w cl cv by (simp add: render_snippet_def Let_def)
    have tr: "st_trace s' = st_trace s3"
      using step by (auto split: convert_result.splits sum.splits)
    have r1: "\<forall>e. cr = ConvertErr e \<longrightarrow> res = RenderErr e None"
      using step by auto
    have r2: "cr = ConvertOk \<longrightarrow> (\<exists>img. res = RenderOk img tid) \<or> (\<exists>m. res = unexpected_error m)"
      using step by (auto split: sum.splits)
    note a = adds_onlyD [OF pdf_to_png_adds [OF cv]]
    have "events_since s s' = events_since s1 s3"
      using tr t1 by (simp add: events_since_def)
    then have sites: "\<forall>e\<in>set (events_since s s'). convert_site e" using a(2) by simp
    have c1: "count_site Compiler (events_since s s') = 0"
      using sites by (intro count_site_zero) (simp add: convert_site_def)
    have c2: "count_site BibTool (events_since s s') = 0"
      using sites by (intro count_site_zero) (simp add: convert_site_def)
    show ?thesis using c1 c2 st Inr w cv tr r1 r2 by simp
  qed
qed

text \<open>
  Claim C10.  For \<open>passes \<le> 0\<close>, \<^verbatim>\<open>compile_latex\<close> returns success and leaves the
  state as it was: it adds no event to the trace, so it invokes neither the compiler nor
  the bibliography tool.  The public interface does not reject such a request:
  \<^verbatim>\<open>api_compile\<close> (line 331) hands the request's \<^verbatim>\<open>passes\<close> to
  \<^verbatim>\<open>render_snippet\<close>, which hands it to \<^verbatim>\<open>compile_latex\<close> (line 90), unchecked.
  The request is answered with status 200 and the result of \<^verbatim>\<open>render_snippet\<close>; no
  event of the call is a run of the compiler or of the bibliography tool; and once the
  workspace is set up, the call goes straight on to the conversion, whose events are all
  the events of the call and whose outcome decides the answer.
\<close>

theorem compile_latex_nonpositive_passes:
  "passes \<le> 0 \<Longrightarrow>
     compile_latex E tex_file passes use_biblatex hide_warnings s = (CompileOk, s)
     \<and> events_since s (snd (compile_latex E tex_file passes use_biblatex hide_warnings s)) = []
     \<and> (\<forall>d body res code s'.
           req_body d = Some body \<and> req_passes d = Some passes
           \<and> api_compile E (Some d) s = ((res, code), s') \<longrightarrow>
             code = 200
           \<and> render_snippet E body (get_or (req_preamble_extra d) [])
                 (get_or (req_sanitize_graphics d) True) passes (req_bib_entries d)
                 (get_or (req_use_biblatex d) False) (get_or (req_hide_warnings d) False) s
               = (res, s')
           \<and> count_site Compiler (events_since s s') = 0
           \<and> count_site BibTool (events_since s s') = 0
           \<and> (\<forall>tid tp s1.
                 stage_workspace E body (get_or (req_preamble_extra d) []) (req_bib_entries d)
                     (get_or (req_use_biblatex d) False) s = (Inr (tid, tp), s1) \<longrightarrow>
                   st_trace s' = st_trace (snd (pdf_to_png E (joinpath tp ''document.pdf'')
                                                   (joinpath tp ''document.png'') 300 True s1))
                 \<and> (\<forall>e. fst (pdf_to_png E (joinpath tp ''document.pdf'')
                                  (joinpath tp ''document.png'') 300 True s1) = ConvertErr e
                          \<longrightarrow> res = RenderErr e None)
                 \<and> (fst (pdf_to_png E (joinpath tp ''document.pdf'')
                             (joinpath tp ''document.png'') 300 True s1) = ConvertOk
                          \<longrightarrow> (\<exists>img. res = RenderOk img tid) \<or> (\<exists>m. res = unexpected_error m))))"
proof (intro conjI allI impI)
  assume np: "passes \<le> 0"
  show "compile_latex E tex_file passes use_biblatex hide_warnings s = (CompileOk, s)"
    using np by (simp add: compile_latex_def)
  show "events_since s (snd (compile_latex E tex_file passes use_biblatex hide_warnings s)) = []"
    using np by (simp add: compile_latex_def events_since_def)
next
  fix d body res code s'
  assume np: "passes \<le> 0"
  assume a: "req_body d = Some body \<and> req_passes d = Some passes
           \<and> api_compile E (Some d) s = ((res, code), s')"
  let ?pe = "get_or (req_preamble_extra d) []"
  let ?sg = "get_or (req_sanitize_graphics d) True"
  let ?bl = "get_or (req_use_biblatex d) False"
  let ?hw = "get_or (req_hide_warnings d) False"
  obtain r0 t0 where rs: "render_snippet E body ?pe ?sg passes (req_bib_entries d) ?bl ?hw s = (r0, t0)"
    by force
  from a have b: "req_body d = Some body" and p: "get_or (req_passes d) 1 = passes"
    and api: "api_compile E (Some d) s = ((res, code), s')"
    by (simp_all add: get_or_def)
  have "api_compile E (Some d) s = ((r0, 200), t0)"
    unfolding api_compile_def using b p rs by simp
  with api have eq: "((res, code), s') = ((r0, 200), t0)" by simp
  then show "code = 200" by simp
  from eq rs show run: "render_snippet E body ?pe ?sg passes (req_bib_entries d) ?bl ?hw s = (res, s')"
    by simp
  note h = render_snippet_no_pass [OF np run]
  from h show "count_site Compiler (events_since s s') = 0" by (rule conjunct1)
  from h show "count_site BibTool (events_since s s') = 0" by (rule conjunct1 [OF conjunct2])
  fix tid tp s1
  assume st: "stage_workspace E body ?pe (req_bib_entries d) ?bl s = (Inr (tid, tp), s1)"
  from h have "\<forall>tid tp s1. stage_workspace E body ?pe (req_bib_entries d) ?bl s = (Inr (tid, tp), s1) \<longrightarrow>
            st_trace s' = st_trace (snd (pdf_to_png E (joinpath tp ''document.pdf'')
                                            (joinpath tp ''document.png'') 300 True s1))
          \<and> (\<forall>e. fst (pdf_to_png E (joinpath tp ''document.pdf'')
                           (joinpath tp ''document.png'') 300 True s1) = ConvertErr e
                   \<longrightarrow> res = RenderErr e None)
          \<and> (fst (pdf_to_png E (joinpath tp ''document.pdf'')
                      (joinpath tp ''document.png'') 300 True s1) = ConvertOk
                   \<longrightarrow> (\<exists>img. res = RenderOk img tid) \<or> (\<exists>m. res = unexpected_error m))"
    by (rule conjunct2 [OF conjunct2])
  with st have k: "st_trace s' = st_trace (snd (pdf_to_png E (joinpath tp ''document.pdf'')
                                            (joinpath tp ''document.png'') 300 True s1))
          \<and> (\<forall>e. fst (pdf_to_png E (joinpath tp ''document.pdf'')
                           (joinpath tp ''document.png'') 300 True s1) = ConvertErr e
                   \<longrightarrow> res = RenderErr e None)
          \<and> (fst (pdf_to_png E (joinpath tp ''document.pdf'')
                      (joinpath tp ''document.png'') 300 True s1) = ConvertOk
                   \<longrightarrow> (\<exists>img. res = RenderOk img tid) \<or> (\<exists>m. res = unexpected_error m))"
    by blast
  from k show "st_trace s' = st_trace (snd (pdf_to_png E (joinpath tp ''document.pdf'')
                                            (joinpath tp ''document.png'') 300 True s1))"
    by (rule conjunct1)
  {
    fix e
    assume "fst (pdf_to_png E (joinpath tp ''document.pdf'')
                           (joinpath tp ''document.png'') 300 True s1) = ConvertErr e"
    with k show "res = RenderErr e None" by blast
  }
  {
    assume "fst (pdf_to_png E (joinpath tp ''document.pdf'')
                      (joinpath tp ''document.png'') 300 True s1) = ConvertOk"
    with k show "(\<exists>img. res = RenderOk img tid) \<or> (\<exists>m. res = unexpected_error m)" by blast
  }
qed

theorem compile_latex_nonpositive_passes_witness:
  "(0::int) \<le> 0 \<and> (-3::int) \<le> 0
   \<and> compile_latex script_env tex_path 0 False False (staged two_passes)
       = (CompileOk, staged two_passes)
   \<and> compile_latex script_env tex_path (-3) True False (staged two_passes)
       = (CompileOk, staged two_passes)
   \<and> req_body (no_pass_request 0) = Some good_body
   \<and> req_passes (no_pass_request 0) = Some 0
   \<and> snd (fst (answer_in 0 both_fail)) = 200
   \<and> count_site Compiler (events_since (start both_fail) (snd (answer_in 0 both_fail))) = 0
   \<and> count_site BibTool (events_since (start both_fail) (snd (answer_in 0 both_fail))) = 0
   \<and> fst (stage_workspace script_env good_body [] None False (start both_fail))
       = Inr (''1b4e28ba-2fa1-41d2-883f-0016d3cca427'', ws)
   \<and> fst (fst (answer_in 0 both_fail))
       = RenderErr (''Failed to convert PDF to PNG. pdftoppm result: ''
                    @ ''convert: no decode delegate'' @ '', convert not available.'') None"
proof -
  let ?ans = "answer_in 0 both_fail"
  let ?st = "stage_workspace script_env good_body [] None False (start both_fail)"
  let ?msg = "''Failed to convert PDF to PNG. pdftoppm result: ''
                    @ ''convert: no decode delegate'' @ '', convert not available.''"
  have z: "(0::int) \<le> 0" and m: "(-3::int) \<le> 0" by simp_all
  have c0: "compile_latex script_env tex_path 0 False False (staged two_passes)
       = (CompileOk, staged two_passes)"
    using compile_latex_nonpositive_passes [of 0 script_env tex_path False False "staged two_passes"]
    by simp
  have c3: "compile_latex script_env tex_path (-3) True False (staged two_passes)
       = (CompileOk, staged two_passes)"
    using compile_latex_nonpositive_passes [of "-3" script_env tex_path True False "staged two_passes"]
    by simp
  have b: "req_body (no_pass_request 0) = Some good_body"
    and p: "req_passes (no_pass_request 0) = Some 0"
    by (simp_all add: no_pass_request_def)
  have pe: "get_or (req_preamble_extra (no_pass_request 0)) [] = []"
    and be: "req_bib_entries (no_pass_request 0) = None"
    and bl: "get_or (req_use_biblatex (no_pass_request 0)) False = False"
    by (simp_all add: no_pass_request_def get_or_def)
  have pre: "req_body (no_pass_request 0) = Some good_body
         \<and> req_passes (no_pass_request 0) = Some 0
         \<and> api_compile script_env (Some (no_pass_request 0)) (start both_fail)
             = ((fst (fst ?ans), snd (fst ?ans)), snd ?ans)"
    using b p by (simp add: answer_in_def)
  note w = compile_latex_nonpositive_passes [of 0 script_env tex_path False False "start both_fail", OF z]
  note api = conjunct2 [OF conjunct2 [OF w]]
  note i = spec [OF spec [OF spec [OF spec [OF spec [OF api, where x = "no_pass_request 0"],
                 where x = good_body], where x = "fst (fst ?ans)"], where x = "snd (fst ?ans)"],
                 where x = "snd ?ans"]
  note k = mp [OF i pre]
  have code: "snd (fst ?ans) = 200" using k by (rule conjunct1)
  note k3 = conjunct2 [OF conjunct2 [OF k]]
  have n1: "count_site Compiler (events_since (start both_fail) (snd ?ans)) = 0"
    using k3 by (rule conjunct1)
  have n2: "count_site BibTool (events_since (start both_fail) (snd ?ans)) = 0"
    using k3 by (rule conjunct1 [OF conjunct2])
  note k5 = conjunct2 [OF conjunct2 [OF k3], unfolded pe be bl]
  have st: "?st = (Inr (''1b4e28ba-2fa1-41d2-883f-0016d3cca427'', ws), snd ?st)"
    by code_simp
  then have st1: "fst ?st = Inr (''1b4e28ba-2fa1-41d2-883f-0016d3cca427'', ws)"
    by (metis fst_conv)
  note j = mp [OF spec [OF spec [OF spec [OF k5, where x = "''1b4e28ba-2fa1-41d2-883f-0016d3cca427''"],
                  where x = ws], where x = "snd ?st"] st]
  have cv: "fst (pdf_to_png script_env (joinpath ws ''document.pdf'') (joinpath ws ''document.png'')
                   300 True (snd ?st)) = ConvertErr ?msg"
    by code_simp
  have res: "fst (fst ?ans) = RenderErr ?msg None"
    using mp [OF spec [OF conjunct1 [OF conjunct2 [OF j]], where x = ?msg] cv] .
  show ?thesis by (intro conjI z m c0 c3 b p code n1 n2 st1 res)
qed

section \<open>The flags without effect\<close>

text \<open>
  Claim C9.  Two calls of \<^verbatim>\<open>render_snippet\<close> that differ only in
  \<^verbatim>\<open>sanitize_graphics\<close> and \<^verbatim>\<open>hide_warnings\<close> return the same result and leave
  the same state, trace included; likewise \<^verbatim>\<open>compile_latex\<close> for \<^verbatim>\<open>hide_warnings\<close>.
\<close>

theorem render_snippet_ignores_flags:
  "render_snippet E body preamble_extra sg passes bib_entries use_biblatex hw s
     = render_snippet E body preamble_extra sg' passes bib_entries use_biblatex hw' s
   \<and> compile_latex E tex_file passes use_biblatex hw s
     = compile_latex E tex_file passes use_biblatex hw' s"
  unfolding render_snippet_def compile_latex_def by simp

end
